theory Spec2Isabelle
  imports Main
begin

section \<open>The module specifier resolution of typescript-deno-plugin\<close>

text \<open>
  The plugin wraps the language service host's \<open>resolveModuleNames\<close>: every specifier
  of a batch goes through the import-map substitution, then \<open>stripExtNameDotTs\<close>, then
  \<open>convertRemoteToLocalCache\<close> (which calls \<open>fallbackHeader\<close>). The functions below
  follow the functions of the plugin's main module one by one. Calls of \<open>logger.info\<close> only write to
  the host's log and are left out.

  Conventions.
  \<^item> A JavaScript string is a \<open>string\<close>; one \<open>char\<close> stands for one code unit.
  \<^item> A function that can throw returns \<open>error + 'a\<close>, with \<open>Inl\<close> the exception.
  \<^item> A function whose loop or recursion may go on for ever returns an \<open>option\<close>:
    \<open>None\<close> says that the call never returns a value.
  \<^item> JavaScript's \<open>undefined\<close> is the \<open>None\<close> of an inner \<open>option\<close>.
\<close>

subsection \<open>String primitives of JavaScript\<close>

text \<open>\<open>s.startsWith(p)\<close> and \<open>s.endsWith(p)\<close>.\<close>

definition startsWith :: "string \<Rightarrow> string \<Rightarrow> bool" where
  "startsWith s p = (take (length p) s = p)"

definition endsWith :: "string \<Rightarrow> string \<Rightarrow> bool" where
  "endsWith s p = (length p \<le> length s \<and> drop (length s - length p) s = p)"

text \<open>\<open>s.indexOf(p)\<close>: the position of the first occurrence of \<open>p\<close>, or \<open>-1\<close>.\<close>

fun indexOf :: "string \<Rightarrow> string \<Rightarrow> int" where
  "indexOf [] p = (if p = [] then 0 else - 1)"
| "indexOf (c # s) p =
     (if startsWith (c # s) p then 0
      else (let i = indexOf s p in if i = - 1 then - 1 else i + 1))"

text \<open>
  \<open>s.substring(a, b)\<close>: both bounds are clamped to \<open>0 .. s.length\<close> and swapped when
  \<open>a > b\<close>; \<open>s.substring(a)\<close> runs to the end of the string.
\<close>

definition substring :: "string \<Rightarrow> int \<Rightarrow> int \<Rightarrow> string" where
  "substring s a b =
     (let n = int (length s);
          a' = max 0 (min a n);
          b' = max 0 (min b n);
          lo = min a' b';
          hi = max a' b'
      in take (nat (hi - lo)) (drop (nat lo) s))"

definition substring_from :: "string \<Rightarrow> int \<Rightarrow> string" where
  "substring_from s a = substring s a (int (length s))"

text \<open>\<open>s.slice(a, b)\<close>: a negative bound counts from the end of the string.\<close>

definition slice :: "string \<Rightarrow> int \<Rightarrow> int \<Rightarrow> string" where
  "slice s a b =
     (let n = int (length s);
          from = (if a < 0 then max (n + a) 0 else min a n);
          to = (if b < 0 then max (n + b) 0 else min b n)
      in take (nat (to - from)) (drop (nat from) s))"

text \<open>
  \<open>s.replace(p, r)\<close> with a string pattern replaces the first occurrence of \<open>p\<close> only.
  (The replacement strings of the plugin contain no \<open>$\<close> pattern.)
\<close>

fun replace :: "string \<Rightarrow> string \<Rightarrow> string \<Rightarrow> string" where
  "replace [] p r = (if p = [] then r else [])"
| "replace (c # s) p r =
     (if startsWith (c # s) p then r @ drop (length p) (c # s)
      else c # replace s p r)"

subsection \<open>The specifier normalizer\<close>

text \<open>
  \<^verbatim>\<open>
  function getModuleWithQueryString(moduleName: string): string | undefined {
    let name = moduleName;
    for (const index = name.indexOf("?"); index !== -1; name = name.substring(index + 1)) {
      if (name.substring(0, index).endsWith(".ts")) {
        const cutLength = moduleName.length - name.length;
        return moduleName.substring(0, index + cutLength);
      }
    }
  }
  \<close>
  \<open>index\<close> is a constant of the loop: it is computed once, from the whole specifier, and
  the loop's condition never changes. The loop is the function below, with \<open>name\<close> its
  only variable; falling out of the loop returns \<open>undefined\<close>.
\<close>

partial_function (option) getModuleWithQueryString_loop ::
  "string \<Rightarrow> int \<Rightarrow> string \<Rightarrow> string option option" where
  "getModuleWithQueryString_loop moduleName index name =
     (if index \<noteq> - 1 then
        (if endsWith (substring name 0 index) ''.ts'' then
           (let cutLength = int (length moduleName) - int (length name)
            in Some (Some (substring moduleName 0 (index + cutLength))))
         else getModuleWithQueryString_loop moduleName index (substring_from name (index + 1)))
      else Some None)"

declare getModuleWithQueryString_loop.simps [code]

definition getModuleWithQueryString :: "string \<Rightarrow> string option option" where
  "getModuleWithQueryString moduleName =
     getModuleWithQueryString_loop moduleName (indexOf moduleName ''?'') moduleName"

text \<open>The test \<open>if (moduleWithQuery)\<close>: \<open>undefined\<close> and the empty string are falsy.\<close>

definition truthy_string :: "string option \<Rightarrow> bool" where
  "truthy_string v = (case v of None \<Rightarrow> False | Some s \<Rightarrow> s \<noteq> [])"

text \<open>
  \<^verbatim>\<open>
  function stripExtNameDotTs(moduleName: string): string {
    const moduleWithQuery = getModuleWithQueryString(moduleName);
    if (moduleWithQuery) {
      return moduleWithQuery;
    }
    if (!moduleName.endsWith(".ts")) {
      return moduleName;
    }
    const name = moduleName.slice(0, -3);
    return name;
  }
  \<close>
\<close>

definition stripExtNameDotTs :: "string \<Rightarrow> string option" where
  "stripExtNameDotTs moduleName =
     (case getModuleWithQueryString moduleName of
        None \<Rightarrow> None
      | Some moduleWithQuery \<Rightarrow>
          (if truthy_string moduleWithQuery then moduleWithQuery
           else if \<not> endsWith moduleName ''.ts'' then Some moduleName
           else Some (slice moduleName 0 (- 3))))"

subsection \<open>JSON documents and the values JavaScript makes of them\<close>

text \<open>
  \<open>JSON.parse\<close> is a parameter of the model (a field of \<open>host\<close> below). Its result is
  the document's syntax tree: an object keeps its members in the order of the document,
  repeated names included; a number is kept as the string JavaScript prints for it, the
  only view of a number the plugin has. \<open>None\<close> from the parser stands for its
  \<open>SyntaxError\<close>.
\<close>

datatype error = ENOENT | EACCES | EISDIR | SyntaxError | TypeError

datatype json =
    JNull
  | JBool bool
  | JNum string
  | JStr string
  | JArr "json list"
  | JObj "(string \<times> json) list"

text \<open>
  The object that \<open>JSON.parse\<close> builds from the members of a document: each member
  defines the property of its name; a repeated name overwrites the value and keeps the
  property's place.
\<close>

fun put_property :: "string \<Rightarrow> 'v \<Rightarrow> (string \<times> 'v) list \<Rightarrow> (string \<times> 'v) list" where
  "put_property k v [] = [(k, v)]"
| "put_property k v ((k', v') # ps) =
     (if k' = k then (k, v) # ps else (k', v') # put_property k v ps)"

definition own_properties :: "(string \<times> 'v) list \<Rightarrow> (string \<times> 'v) list" where
  "own_properties members = foldl (\<lambda>ps (k, v). put_property k v ps) [] members"

text \<open>
  The order in which JavaScript lists the keys of an object (\<open>Object.keys\<close>,
  \<open>for ... in\<close>): the array indices first (canonical decimal numerals below
  \<open>2^32 - 1\<close>), by ascending value, then every other key in the order of creation.
\<close>

definition is_digit :: "char \<Rightarrow> bool" where
  "is_digit c = (48 \<le> (of_char c :: int) \<and> (of_char c :: int) \<le> 57)"

definition digits_value :: "string \<Rightarrow> int" where
  "digits_value s = foldl (\<lambda>n c. 10 * n + (of_char c - 48)) 0 s"

definition is_array_index :: "string \<Rightarrow> bool" where
  "is_array_index k =
     (k \<noteq> [] \<and> list_all is_digit k \<and> (k = ''0'' \<or> hd k \<noteq> CHR ''0'') \<and>
      digits_value k < 4294967295)"

definition own_keys :: "(string \<times> 'v) list \<Rightarrow> string list" where
  "own_keys ps =
     sort_key digits_value (filter is_array_index (map fst ps)) @
     filter (\<lambda>k. \<not> is_array_index k) (map fst ps)"

text \<open>The properties themselves in that order: \<open>own_keys\<close> lists their names.\<close>

definition enumerate_properties :: "(string \<times> 'v) list \<Rightarrow> (string \<times> 'v) list" where
  "enumerate_properties ps =
     sort_key (\<lambda>p. digits_value (fst p)) (filter (\<lambda>p. is_array_index (fst p)) ps) @
     filter (\<lambda>p. \<not> is_array_index (fst p)) ps"

fun show_nat :: "nat \<Rightarrow> string" where
  "show_nat n =
     (if n < 10 then [char_of (48 + n)] else show_nat (n div 10) @ [char_of (48 + n mod 10)])"

declare show_nat.simps [simp del]

text \<open>
  \<open>v.name\<close>, for the names the plugin reads (\<open>imports\<close>, \<open>redirect_to\<close>,
  \<open>denoOptions\<close>, \<open>importMap\<close>; no built-in prototype defines any of them): reading
  a property of \<open>null\<close> throws a \<open>TypeError\<close>, an object gives its own property or
  \<open>undefined\<close>, every other value gives \<open>undefined\<close>.
\<close>

fun get_property :: "json \<Rightarrow> string \<Rightarrow> error + json option" where
  "get_property JNull name = Inl TypeError"
| "get_property (JObj members) name = Inr (map_of (own_properties members) name)"
| "get_property v name = Inr None"

text \<open>
  \<open>Object.keys(v)\<close> throws on \<open>undefined\<close> and \<open>null\<close>; an array and a string
  have their indices as keys, a number and a boolean have none.
\<close>

fun Object_keys :: "json option \<Rightarrow> error + string list" where
  "Object_keys None = Inl TypeError"
| "Object_keys (Some JNull) = Inl TypeError"
| "Object_keys (Some (JObj members)) = Inr (own_keys (own_properties members))"
| "Object_keys (Some (JArr xs)) = Inr (map show_nat [0..<length xs])"
| "Object_keys (Some (JStr s)) = Inr (map show_nat [0..<length s])"
| "Object_keys (Some v) = Inr []"

text \<open>\<open>v[key]\<close> for a key that \<open>Object.keys(v)\<close> has listed.\<close>

fun get_element :: "json option \<Rightarrow> string \<Rightarrow> json option" where
  "get_element (Some (JObj members)) key = map_of (own_properties members) key"
| "get_element (Some (JArr xs)) key =
     (if is_array_index key \<and> nat (digits_value key) < length xs
      then Some (xs ! nat (digits_value key)) else None)"
| "get_element (Some (JStr s)) key =
     (if is_array_index key \<and> nat (digits_value key) < length s
      then Some (JStr [s ! nat (digits_value key)]) else None)"
| "get_element v key = None"

text \<open>
  \<open>v + s\<close> with a string \<open>s\<close> turns \<open>v\<close> into a string first. An array joins its
  elements with commas (\<open>null\<close> gives the empty string); an object prints as
  \<open>[object Object]\<close>, unless a member named \<open>toString\<close> hides the inherited method:
  a JSON value is never a function, and the conversion throws a \<open>TypeError\<close>.
\<close>

fun join_comma :: "string list \<Rightarrow> string" where
  "join_comma [] = []"
| "join_comma [x] = x"
| "join_comma (x # y # xs) = x @ '','' @ join_comma (y # xs)"

fun sequence_sum :: "('e + 'a) list \<Rightarrow> 'e + 'a list" where
  "sequence_sum [] = Inr []"
| "sequence_sum (x # xs) =
     (case x of Inl e \<Rightarrow> Inl e
      | Inr v \<Rightarrow> (case sequence_sum xs of Inl e \<Rightarrow> Inl e | Inr vs \<Rightarrow> Inr (v # vs)))"

fun to_string :: "json \<Rightarrow> error + string" where
  "to_string JNull = Inr ''null''"
| "to_string (JBool b) = Inr (if b then ''true'' else ''false'')"
| "to_string (JNum r) = Inr r"
| "to_string (JStr s) = Inr s"
| "to_string (JArr xs) =
     (case sequence_sum (map (\<lambda>x. if x = JNull then Inr [] else to_string x) xs) of
        Inl e \<Rightarrow> Inl e
      | Inr parts \<Rightarrow> Inr (join_comma parts))"
| "to_string (JObj members) =
     (if ''toString'' \<in> set (map fst members) then Inl TypeError
      else Inr ''[object Object]'')"

definition plus_string :: "json option \<Rightarrow> string \<Rightarrow> error + string" where
  "plus_string v s =
     (case v of
        None \<Rightarrow> Inr (''undefined'' @ s)
      | Some j \<Rightarrow> (case to_string j of Inl e \<Rightarrow> Inl e | Inr t \<Rightarrow> Inr (t @ s)))"

text \<open>The truth value of \<open>v\<close> in a condition.\<close>

fun truthy :: "json option \<Rightarrow> bool" where
  "truthy None = False"
| "truthy (Some JNull) = False"
| "truthy (Some (JBool b)) = b"
| "truthy (Some (JNum r)) = (r \<noteq> ''0'')"
| "truthy (Some (JStr s)) = (s \<noteq> [])"
| "truthy (Some v) = True"

subsection \<open>Node's path module (POSIX)\<close>

text \<open>
  \<open>path.resolve\<close> goes through its arguments from the right, and then through the
  working directory, until the path is absolute; it then normalizes the path: empty
  segments and \<open>.\<close> go away, \<open>..\<close> removes the segment before it.
\<close>

fun split_path :: "string \<Rightarrow> string list" where
  "split_path [] = [[]]"
| "split_path (c # s) =
     (if c = CHR ''/'' then [] # split_path s
      else (case split_path s of [] \<Rightarrow> [[c]] | x # xs \<Rightarrow> (c # x) # xs))"

fun join_path :: "string list \<Rightarrow> string" where
  "join_path [] = []"
| "join_path [x] = x"
| "join_path (x # y # xs) = x @ ''/'' @ join_path (y # xs)"

definition normalize_segment :: "bool \<Rightarrow> string list \<Rightarrow> string \<Rightarrow> string list" where
  "normalize_segment allowAboveRoot res seg =
     (if seg = [] \<or> seg = ''.'' then res
      else if seg = ''..'' then
        (if res \<noteq> [] \<and> last res \<noteq> ''..'' then butlast res
         else if allowAboveRoot then res @ [''..'']
         else res)
      else res @ [seg])"

definition normalizeString :: "string \<Rightarrow> bool \<Rightarrow> string" where
  "normalizeString path allowAboveRoot =
     join_path (foldl (normalize_segment allowAboveRoot) [] (split_path path))"

definition resolve_step :: "string \<times> bool \<Rightarrow> string \<Rightarrow> string \<times> bool" where
  "resolve_step acc path =
     (case acc of (resolvedPath, resolvedAbsolute) \<Rightarrow>
        if resolvedAbsolute \<or> path = [] then acc
        else (path @ ''/'' @ resolvedPath, hd path = CHR ''/''))"

definition path_resolve :: "string \<Rightarrow> string list \<Rightarrow> string" where
  "path_resolve cwd args =
     (case foldl resolve_step ([], False) (rev args @ [cwd]) of
        (resolvedPath, resolvedAbsolute) \<Rightarrow>
          (let normalized = normalizeString resolvedPath (\<not> resolvedAbsolute)
           in if resolvedAbsolute then ''/'' @ normalized
              else if normalized \<noteq> [] then normalized else ''.''))"

text \<open>
  \<open>path.dirname\<close> scans the path from its end down to position 1 for the last slash
  that follows a character other than a slash.
\<close>

fun dirname_scan :: "string \<Rightarrow> nat \<Rightarrow> bool \<Rightarrow> int" where
  "dirname_scan path 0 matchedSlash = - 1"
| "dirname_scan path (Suc i) matchedSlash =
     (if path ! Suc i = CHR ''/'' then
        (if \<not> matchedSlash then int (Suc i) else dirname_scan path i matchedSlash)
      else dirname_scan path i False)"

definition path_dirname :: "string \<Rightarrow> string" where
  "path_dirname path =
     (if path = [] then ''.''
      else
        (let hasRoot = (hd path = CHR ''/'');
             end = dirname_scan path (length path - 1) True
         in if end = - 1 then (if hasRoot then ''/'' else ''.'')
            else if hasRoot \<and> end = 1 then ''//''
            else slice path 0 end))"

text \<open>
  A path all of whose segments are names: none is empty, \<open>.\<close> or \<open>..\<close>.
\<close>

definition plain_path :: "string \<Rightarrow> bool" where
  "plain_path s =
     list_all (\<lambda>seg. seg \<noteq> [] \<and> seg \<noteq> ''.'' \<and> seg \<noteq> ''..'') (split_path s)"

subsection \<open>The host: file system and collaborators\<close>

text \<open>
  What the plugin observes of the outside, as one record: the three calls of Node's
  \<open>fs\<close> module (\<open>statSync\<close> is read through its \<open>mtimeMs\<close> alone, kept as the
  string that the template of the cache key prints), \<open>JSON.parse\<close>, the working
  directory of the process, and the collaborators whose code is not part of the
  resolution core: \<open>getDenoDir\<close> of the plugin's \<open>shared\<close> module, and
  \<open>resolveSync\<close> and \<open>readFileSync\<close> of the \<open>tsconfig\<close> package. No relation
  between the fields is assumed.
\<close>

record host =
  existsSync :: "string \<Rightarrow> bool"
  readFileSync :: "string \<Rightarrow> error + string"
  statSync_mtimeMs :: "string \<Rightarrow> error + string"
  JSON_parse :: "string \<Rightarrow> json option"
  getDenoDir :: string
  cwd :: string
  resolveSync :: "string \<Rightarrow> error + string option"
  tsconfig_readFileSync :: "string \<Rightarrow> error + json"

subsection \<open>The remote cache mapper and the redirect resolver\<close>

text \<open>
  \<^verbatim>\<open>
  function convertRemoteToLocalCache(moduleName: string): string {
    if (!moduleName.startsWith("http://") && !moduleName.startsWith("https://")) {
      return moduleName;
    }
    const denoDir = getDenoDir();
    const name = path.resolve(denoDir, "deps", moduleName.replace("://", "/"));
    const redirectedName = fallbackHeader(name);
    return redirectedName;
  }

  function fallbackHeader(modulePath: string): string {
    const validPath = modulePath.endsWith(".ts") ? modulePath : `${modulePath}.ts`;
    if (fs.existsSync(validPath)) {
      return modulePath;
    }
    const headersPath = `${validPath}.headers.json`;
    if (fs.existsSync(headersPath)) {
      const headers: IDenoModuleHeaders = JSON.parse(
        fs.readFileSync(headersPath, { encoding: "utf-8" }),
      );
      logger.info(`redirect "${modulePath}" to "${headers.redirect_to}".`);
      // TODO: avoid Circular
      return convertRemoteToLocalCache(stripExtNameDotTs(headers.redirect_to));
    }
    return modulePath;
  }
  \<close>
  The two functions call each other. They are one recursive function here, on the sum of
  their arguments: \<open>Inl modulePath\<close> is a call of \<open>fallbackHeader\<close>, \<open>Inr moduleName\<close>
  a call of \<open>convertRemoteToLocalCache\<close>. A chain of redirects that never ends is the
  value \<open>None\<close> (the engine ends such a chain by a stack overflow).

  A \<open>redirect_to\<close> that is not a string makes \<open>stripExtNameDotTs\<close> throw a
  \<open>TypeError\<close>, whatever the value is: \<open>undefined\<close>, \<open>null\<close>, a number, a boolean and
  an object have no method \<open>indexOf\<close>, and an array has no \<open>substring\<close> and no
  \<open>endsWith\<close>.
\<close>

partial_function (option) redirect_rec ::
  "host \<Rightarrow> string + string \<Rightarrow> (error + string) option" where
  "redirect_rec H call =
     (case call of
        Inl modulePath \<Rightarrow>
          (let validPath = (if endsWith modulePath ''.ts'' then modulePath else modulePath @ ''.ts'')
           in if existsSync H validPath then Some (Inr modulePath)
              else
                (let headersPath = validPath @ ''.headers.json''
                 in if existsSync H headersPath then
                      (case readFileSync H headersPath of
                         Inl e \<Rightarrow> Some (Inl e)
                       | Inr text \<Rightarrow>
                           (case JSON_parse H text of
                              None \<Rightarrow> Some (Inl SyntaxError)
                            | Some headers \<Rightarrow>
                                (case get_property headers ''redirect_to'' of
                                   Inl e \<Rightarrow> Some (Inl e)
                                 | Inr (Some (JStr redirect_to)) \<Rightarrow>
                                     (case stripExtNameDotTs redirect_to of
                                        None \<Rightarrow> None
                                      | Some name \<Rightarrow> redirect_rec H (Inr name))
                                 | Inr _ \<Rightarrow> Some (Inl TypeError))))
                    else Some (Inr modulePath)))
      | Inr moduleName \<Rightarrow>
          (if \<not> startsWith moduleName ''http://'' \<and> \<not> startsWith moduleName ''https://''
           then Some (Inr moduleName)
           else
             (let denoDir = getDenoDir H;
                  name = path_resolve (cwd H) [denoDir, ''deps'', replace moduleName ''://'' ''/'']
              in redirect_rec H (Inl name))))"

declare redirect_rec.simps [code]

definition fallbackHeader :: "host \<Rightarrow> string \<Rightarrow> (error + string) option" where
  "fallbackHeader H modulePath = redirect_rec H (Inl modulePath)"

definition convertRemoteToLocalCache :: "host \<Rightarrow> string \<Rightarrow> (error + string) option" where
  "convertRemoteToLocalCache H moduleName = redirect_rec H (Inr moduleName)"

text \<open>The path that \<open>fallbackHeader\<close> tests for existence, and the cache path of a URL.\<close>

definition validPath_of :: "string \<Rightarrow> string" where
  "validPath_of modulePath =
     (if endsWith modulePath ''.ts'' then modulePath else modulePath @ ''.ts'')"

definition cache_path :: "host \<Rightarrow> string \<Rightarrow> string" where
  "cache_path H moduleName =
     path_resolve (cwd H) [getDenoDir H, ''deps'', replace moduleName ''://'' ''/'']"

subsection \<open>The import map store\<close>

text \<open>
  \<^verbatim>\<open>
  const importMapCache = new Map<string, IImportMap>();

  function getImportMap(filePath: string) {
    const fileStats = fs.statSync(filePath);
    const cacheKey = `${filePath}-${fileStats.mtimeMs}`;
    const isCached = importMapCache.has(cacheKey);
    let workingImportMap: IImportMap | undefined;
    if (!isCached) {
      const importMapFile = fs.readFileSync(filePath, { encoding: "utf-8" });
      workingImportMap = JSON.parse(importMapFile) as IImportMap;
      importMapCache.set(cacheKey, workingImportMap);
    } else {
      workingImportMap = importMapCache.get(cacheKey) as IImportMap;
    }
    return workingImportMap;
  }
  \<close>
  The claims about the cache speak of the identity of objects, so the objects live in a
  store: \<open>JSON.parse\<close> allocates the object or array it returns at a new address, and a
  value is either a primitive or a reference. (The objects inside a parsed document are
  never shared or updated by the plugin; they stay inside the document.) The cache maps
  a key to a value; \<open>has\<close> is the test against \<open>None\<close>.
\<close>

datatype jsvalue = Prim json | Ref nat

record state =
  heap :: "json list"
  importMapCache :: "string \<Rightarrow> jsvalue option"

definition is_object :: "json \<Rightarrow> bool" where
  "is_object j = (case j of JObj members \<Rightarrow> True | JArr xs \<Rightarrow> True | _ \<Rightarrow> False)"

definition allocate :: "json \<Rightarrow> json list \<Rightarrow> jsvalue \<times> json list" where
  "allocate j h = (if is_object j then (Ref (length h), h @ [j]) else (Prim j, h))"

text \<open>Reading a value; a reference is an address that \<open>allocate\<close> has returned.\<close>

definition deref :: "json list \<Rightarrow> jsvalue \<Rightarrow> json" where
  "deref h v = (case v of Prim j \<Rightarrow> j | Ref a \<Rightarrow> h ! a)"

definition cacheKey_of :: "string \<Rightarrow> string \<Rightarrow> string" where
  "cacheKey_of filePath mtimeMs = filePath @ ''-'' @ mtimeMs"

definition getImportMap :: "host \<Rightarrow> state \<Rightarrow> string \<Rightarrow> (error + jsvalue) \<times> state" where
  "getImportMap H st filePath =
     (case statSync_mtimeMs H filePath of
        Inl e \<Rightarrow> (Inl e, st)
      | Inr mtimeMs \<Rightarrow>
          (let cacheKey = cacheKey_of filePath mtimeMs
           in case importMapCache st cacheKey of
                None \<Rightarrow>
                  (case readFileSync H filePath of
                     Inl e \<Rightarrow> (Inl e, st)
                   | Inr importMapFile \<Rightarrow>
                       (case JSON_parse H importMapFile of
                          None \<Rightarrow> (Inl SyntaxError, st)
                        | Some parsed \<Rightarrow>
                            (case allocate parsed (heap st) of
                               (workingImportMap, h) \<Rightarrow>
                                 (Inr workingImportMap,
                                  st\<lparr>heap := h,
                                     importMapCache :=
                                       (importMapCache st)(cacheKey \<mapsto> workingImportMap)\<rparr>))))
              | Some workingImportMap \<Rightarrow> (Inr workingImportMap, st)))"

text \<open>
  The references of a state lie inside its store; the state of a fresh process is empty.
\<close>

definition state_ok :: "state \<Rightarrow> bool" where
  "state_ok st = (\<forall>k a. importMapCache st k = Some (Ref a) \<longrightarrow> a < length (heap st))"

definition state0 :: state where
  "state0 = \<lparr> heap = [], importMapCache = (\<lambda>k. None) \<rparr>"

subsection \<open>The import map resolver\<close>

text \<open>
  \<^verbatim>\<open>
  function makeTransformFromImportMap(projectDirectory: string) {
    const tsconfigPath = resolveSync(projectDirectory);
    if (tsconfigPath !== undefined) {
      const tsconfig = readFileSync(tsconfigPath) as IDenoTypeScriptConfig;
      const denoOptions = tsconfig.denoOptions;
      if (denoOptions && denoOptions.importMap) {
        const tsconfigDirectory = path.dirname(tsconfigPath);
        const importMapPath = path.resolve(tsconfigDirectory, denoOptions.importMap);
        const importMap = getImportMap(importMapPath);
        return (moduleName: string) => {
          const imports = importMap.imports;
          const importKeys = Object.keys(imports);
          for (const key of importKeys) {
            if (moduleName.startsWith(key)) {
              const strippedModuleName = moduleName.substring(key.length);
              const realModuleName = imports[key] + strippedModuleName;
              return realModuleName;
            }
          }
          return moduleName;
        };
      }
    }
    return (moduleName: string) => moduleName;
  }
  \<close>
  \<open>import_scan\<close> is the \<open>for\<close> loop of the returned function, and
  \<open>transformFromImportMap\<close> the returned function for a given import map.
  \<open>path.resolve\<close> throws a \<open>TypeError\<close> for an \<open>importMap\<close> that is not a string.
\<close>

fun import_scan :: "json option \<Rightarrow> string list \<Rightarrow> string \<Rightarrow> error + string" where
  "import_scan imports [] moduleName = Inr moduleName"
| "import_scan imports (key # importKeys) moduleName =
     (if startsWith moduleName key then
        (let strippedModuleName = substring_from moduleName (int (length key))
         in plus_string (get_element imports key) strippedModuleName)
      else import_scan imports importKeys moduleName)"

definition transformFromImportMap :: "json \<Rightarrow> string \<Rightarrow> error + string" where
  "transformFromImportMap importMap moduleName =
     (case get_property importMap ''imports'' of
        Inl e \<Rightarrow> Inl e
      | Inr imports \<Rightarrow>
          (case Object_keys imports of
             Inl e \<Rightarrow> Inl e
           | Inr importKeys \<Rightarrow> import_scan imports importKeys moduleName))"

definition makeTransformFromImportMap ::
  "host \<Rightarrow> state \<Rightarrow> string \<Rightarrow> (error + (string \<Rightarrow> error + string)) \<times> state" where
  "makeTransformFromImportMap H st projectDirectory =
     (case resolveSync H projectDirectory of
        Inl e \<Rightarrow> (Inl e, st)
      | Inr None \<Rightarrow> (Inr (\<lambda>moduleName. Inr moduleName), st)
      | Inr (Some tsconfigPath) \<Rightarrow>
          (case tsconfig_readFileSync H tsconfigPath of
             Inl e \<Rightarrow> (Inl e, st)
           | Inr tsconfig \<Rightarrow>
               (case get_property tsconfig ''denoOptions'' of
                  Inl e \<Rightarrow> (Inl e, st)
                | Inr None \<Rightarrow> (Inr (\<lambda>moduleName. Inr moduleName), st)
                | Inr (Some denoOptions) \<Rightarrow>
                    (if \<not> truthy (Some denoOptions)
                     then (Inr (\<lambda>moduleName. Inr moduleName), st)
                     else
                       (case get_property denoOptions ''importMap'' of
                          Inl e \<Rightarrow> (Inl e, st)
                        | Inr importMapField \<Rightarrow>
                            (if \<not> truthy importMapField
                             then (Inr (\<lambda>moduleName. Inr moduleName), st)
                             else
                               (case importMapField of
                                  Some (JStr importMapRel) \<Rightarrow>
                                    (let tsconfigDirectory = path_dirname tsconfigPath;
                                         importMapPath =
                                           path_resolve (cwd H) [tsconfigDirectory, importMapRel]
                                     in case getImportMap H st importMapPath of
                                          (Inl e, st') \<Rightarrow> (Inl e, st')
                                        | (Inr importMap, st') \<Rightarrow>
                                            (Inr (transformFromImportMap
                                                    (deref (heap st') importMap)),
                                             st'))
                                | _ \<Rightarrow> (Inl TypeError, st))))))))"

subsection \<open>The specification's wording\<close>

text \<open>
  The query rule of the specification: the specifier is cut at the first \<open>?\<close> that
  comes right after a segment ending in \<open>.ts\<close>, and left alone when there is none. The
  extension rule: a final \<open>.ts\<close> is removed.
\<close>

definition ts_segment_precedes_query :: "string \<Rightarrow> bool" where
  "ts_segment_precedes_query s =
     list_ex (\<lambda>i. s ! i = CHR ''?'' \<and> endsWith (take i s) ''.ts'') [0..<length s]"

definition spec_query_split :: "string \<Rightarrow> string" where
  "spec_query_split s =
     (case find (\<lambda>i. s ! i = CHR ''?'' \<and> endsWith (take i s) ''.ts'') [0..<length s] of
        None \<Rightarrow> s
      | Some i \<Rightarrow> take i s)"

definition spec_extension_strip :: "string \<Rightarrow> string" where
  "spec_extension_strip s = (if endsWith s ''.ts'' then take (length s - 3) s else s)"

text \<open>
  The substitution of the specification: the first entry, in the order of the list, whose
  key is a prefix of the specifier replaces that prefix by its value.
\<close>

fun spec_substitution :: "(string \<times> string) list \<Rightarrow> string \<Rightarrow> string" where
  "spec_substitution [] moduleName = moduleName"
| "spec_substitution ((key, val) # entries) moduleName =
     (if startsWith moduleName key then val @ drop (length key) moduleName
      else spec_substitution entries moduleName)"

text \<open>An import map document whose values are strings.\<close>

definition import_map_document :: "(string \<times> string) list \<Rightarrow> json" where
  "import_map_document entries =
     JObj [(''imports'', JObj (map (\<lambda>(k, v). (k, JStr v)) entries))]"

subsection \<open>An example host\<close>

text \<open>
  A dependency cache with one module on disk (\<open>std/log/mod.ts\<close>), three sidecar files
  (a redirect to another remote module, a redirect to a relative specifier, and a
  redirect of a module to itself), and a project with an import map.
\<close>

definition example_files :: "(string \<times> string) list" where
  "example_files =
     [(''/home/u/.deno/deps/https/deno.land/x/std/log/mod.ts'', ''export {};''),
      (''/home/u/.deno/deps/https/deno.land/x/old/mod.ts.headers.json'',
       ''{\"redirect_to\":\"https://deno.land/x/new/mod.ts\"}''),
      (''/home/u/.deno/deps/https/deno.land/x/local/mod.ts.headers.json'',
       ''{\"redirect_to\":\"./vendor/mod.ts\"}''),
      (''/home/u/.deno/deps/https/deno.land/x/a/mod.ts.headers.json'',
       ''{\"redirect_to\":\"https://deno.land/x/a/mod.ts\"}''),
      (''/proj/import_map.json'', ''{\"imports\":{\"std/\":\"https://deno.land/std/\"}}''),
      (''/proj/bare.json'', ''{}'')]"

definition example_documents :: "(string \<times> json) list" where
  "example_documents =
     [(''{\"redirect_to\":\"https://deno.land/x/new/mod.ts\"}'',
       JObj [(''redirect_to'', JStr ''https://deno.land/x/new/mod.ts'')]),
      (''{\"redirect_to\":\"./vendor/mod.ts\"}'',
       JObj [(''redirect_to'', JStr ''./vendor/mod.ts'')]),
      (''{\"redirect_to\":\"https://deno.land/x/a/mod.ts\"}'',
       JObj [(''redirect_to'', JStr ''https://deno.land/x/a/mod.ts'')]),
      (''{\"imports\":{\"std/\":\"https://deno.land/std/\"}}'',
       JObj [(''imports'', JObj [(''std/'', JStr ''https://deno.land/std/'')])]),
      (''{}'', JObj [])]"

definition example_host :: host where
  "example_host =
     \<lparr> existsSync = (\<lambda>p. map_of example_files p \<noteq> None),
       readFileSync =
         (\<lambda>p. case map_of example_files p of None \<Rightarrow> Inl ENOENT | Some c \<Rightarrow> Inr c),
       statSync_mtimeMs =
         (\<lambda>p. case map_of example_files p of
                None \<Rightarrow> Inl ENOENT
              | Some c \<Rightarrow> Inr ''1571000000000''),
       JSON_parse = map_of example_documents,
       getDenoDir = ''/home/u/.deno'',
       cwd = ''/work'',
       resolveSync = (\<lambda>p. Inr (Some ''/proj/tsconfig.json'')),
       tsconfig_readFileSync =
         (\<lambda>p. Inr (JObj [(''denoOptions'',
                           JObj [(''importMap'', JStr ''./import_map.json'')])])) \<rparr>"

text \<open>The same host after the import map has been touched: a later modification time.\<close>

definition touched_host :: host where
  "touched_host =
     example_host\<lparr>statSync_mtimeMs :=
       (\<lambda>p. case map_of example_files p of
              None \<Rightarrow> Inl ENOENT
            | Some c \<Rightarrow> Inr ''1571000060000'')\<rparr>"

text \<open>The state of a fresh process after the first load of the example import map.\<close>

definition loaded_state :: state where
  "loaded_state =
     \<lparr> heap = [import_map_document [(''std/'', ''https://deno.land/std/'')]],
       importMapCache =
         (\<lambda>k. if k = ''/proj/import_map.json-1571000000000'' then Some (Ref 0) else None) \<rparr>"

section \<open>Properties\<close>

subsection \<open>Facts about the string primitives\<close>

lemma indexOf_ge: "- 1 \<le> indexOf s p"
  by (induction s) (auto simp: Let_def)

lemma indexOf_none: "indexOf s [c] = - 1 \<longleftrightarrow> c \<notin> set s"
proof (induction s)
  case Nil
  show ?case by simp
next
  case (Cons a s)
  show ?case using Cons indexOf_ge[of s "[c]"]
    by (auto simp: Let_def startsWith_def)
qed

lemma indexOf_found: "c \<in> set s \<Longrightarrow> 0 \<le> indexOf s [c]"
  using indexOf_ge[of s "[c]"] indexOf_none[of s c] by linarith

lemma substring_0: "0 \<le> i \<Longrightarrow> substring s 0 i = take (nat i) s"
  by (auto simp: substring_def Let_def min_def max_def)

lemma substring_from_drop: "0 \<le> i \<Longrightarrow> substring_from s i = drop (nat i) s"
  by (auto simp: substring_from_def substring_def Let_def min_def max_def)

lemma slice_0_neg3: "slice s 0 (- 3) = take (length s - 3) s"
  by (auto simp: slice_def Let_def min_def max_def nat_diff_distrib)

lemma endsWith_suffix: "endsWith s p \<longleftrightarrow> (\<exists>t. s = t @ p)"
proof
  assume "endsWith s p"
  then have "s = take (length s - length p) s @ p"
    by (metis append_take_drop_id endsWith_def)
  then show "\<exists>t. s = t @ p" ..
next
  assume "\<exists>t. s = t @ p"
  then show "endsWith s p" by (auto simp: endsWith_def)
qed

lemma endsWith_nonempty: "endsWith q ''.ts'' \<Longrightarrow> q \<noteq> []"
  by (auto simp: endsWith_def)

lemma startsWith_take: "startsWith (take n s) p \<Longrightarrow> startsWith s p"
proof -
  assume a: "startsWith (take n s) p"
  then have eq: "take (min (length p) n) s = p"
    by (simp add: startsWith_def min.commute)
  then have "length p = min (min (length p) n) (length s)"
    by (metis length_take min.commute)
  then have "min (length p) n = length p" by linarith
  then show ?thesis using eq by (simp add: startsWith_def)
qed

lemma startsWith_split: "startsWith s p \<Longrightarrow> s = p @ drop (length p) s"
  unfolding startsWith_def by (metis append_take_drop_id)

lemma replace_http:
  assumes "startsWith m ''http://''"
  shows "replace m ''://'' ''/'' = ''http/'' @ drop 7 m"
proof -
  have l: "length ''http://'' = 7" by simp
  have "m = ''http://'' @ drop 7 m" using startsWith_split[OF assms] unfolding l .
  then obtain t where m: "m = ''http://'' @ t" and t: "t = drop 7 m" by blast
  show ?thesis unfolding m by (simp add: startsWith_def)
qed

lemma replace_https:
  assumes "startsWith m ''https://''"
  shows "replace m ''://'' ''/'' = ''https/'' @ drop 8 m"
proof -
  have l: "length ''https://'' = 8" by simp
  have "m = ''https://'' @ drop 8 m" using startsWith_split[OF assms] unfolding l .
  then obtain t where m: "m = ''https://'' @ t" and t: "t = drop 8 m" by blast
  show ?thesis unfolding m by (simp add: startsWith_def)
qed

subsection \<open>The loop of the normalizer\<close>

text \<open>Without a query marker the loop is not entered, and the extension rule applies.\<close>

lemma loop_no_query: "getModuleWithQueryString_loop m (- 1) name = Some None"
  by (subst getModuleWithQueryString_loop.simps) simp

lemma strip_no_query:
  "CHR ''?'' \<notin> set m \<Longrightarrow>
   stripExtNameDotTs m = Some (if endsWith m ''.ts'' then take (length m - 3) m else m)"
  using indexOf_none[of m "CHR ''?''"]
  by (simp add: stripExtNameDotTs_def getModuleWithQueryString_def loop_no_query
      truthy_string_def slice_0_neg3)

text \<open>
  With a query marker the only way out of the loop is its \<open>return\<close>: the result is a
  prefix of the specifier that ends in \<open>.ts\<close>. The variable \<open>name\<close> is always what is
  left of the specifier after some number of characters.
\<close>

lemma loop_result:
  assumes "getModuleWithQueryString_loop m i name = Some y"
    and "0 \<le> i" and "name = drop k m"
  shows "\<exists>q n. y = Some q \<and> q = take n m \<and> endsWith q ''.ts''"
  using assms
proof (induction m i name y arbitrary: k
    rule: getModuleWithQueryString_loop.raw_induct[rotated 1, consumes 1])
  case (1 loop m i name y)
  show ?case
  proof (cases "endsWith (substring name 0 i) ''.ts''")
    case True
    then obtain t where t: "take (nat i) (drop k m) = t @ ''.ts''"
      using 1 by (auto simp: substring_0 endsWith_suffix)
    then have klt: "k < length m" by (cases "k < length m") auto
    have "take (nat i) (drop k m) = drop k (take (nat i + k) m)"
      by (simp add: drop_take)
    then have tk: "take (nat i + k) m = take k m @ t @ ''.ts''"
      using t klt by (metis append_take_drop_id take_take min.absorb1 le_add2 add.commute)
    have cut: "i + (int (length m) - int (length name)) = int (nat i + k)"
      using klt 1 by simp
    have "y = Some (substring m 0 (i + (int (length m) - int (length name))))"
      using 1(2) True \<open>0 \<le> i\<close> by (simp add: Let_def)
    then have "y = Some (take (nat i + k) m)"
      unfolding cut by (simp add: substring_0 del: of_nat_add)
    moreover have "endsWith (take (nat i + k) m) ''.ts''"
      unfolding tk endsWith_suffix by (metis append.assoc)
    ultimately show ?thesis by blast
  next
    case False
    then have rec: "loop m i (substring_from name (i + 1)) = Some y"
      using 1(2) \<open>0 \<le> i\<close> by simp
    have "substring_from name (i + 1) = drop (k + nat (i + 1)) m"
      using 1 by (simp add: substring_from_drop add.commute)
    from 1(1)[OF rec \<open>0 \<le> i\<close> this] show ?thesis .
  qed
qed

lemma getModuleWithQueryString_result:
  assumes "getModuleWithQueryString m = Some r" and "CHR ''?'' \<in> set m"
  shows "\<exists>q n. r = Some q \<and> q = take n m \<and> endsWith q ''.ts''"
  using loop_result[of m "indexOf m ''?''" m r 0] assms indexOf_found[of "CHR ''?''" m]
  by (simp add: getModuleWithQueryString_def)

lemma strip_query:
  assumes "stripExtNameDotTs m = Some q" and "CHR ''?'' \<in> set m"
  shows "endsWith q ''.ts'' \<and> (\<exists>n. q = take n m) \<and> getModuleWithQueryString m = Some (Some q)"
proof -
  obtain r where r: "getModuleWithQueryString m = Some r"
    using assms(1) by (auto simp: stripExtNameDotTs_def split: option.splits)
  from getModuleWithQueryString_result[OF r assms(2)]
  obtain q' n where q': "r = Some q'" "q' = take n m" "endsWith q' ''.ts''" by blast
  then have "stripExtNameDotTs m = Some q'"
    using r endsWith_nonempty[of q'] by (simp add: stripExtNameDotTs_def truthy_string_def)
  then show ?thesis using assms(1) q' r by auto
qed

lemma strip_take:
  assumes "stripExtNameDotTs m = Some q"
  shows "\<exists>n. q = take n m"
proof (cases "CHR ''?'' \<in> set m")
  case True
  then show ?thesis using strip_query[OF assms] by blast
next
  case False
  then have "q = (if endsWith m ''.ts'' then take (length m - 3) m else m)"
    using strip_no_query[of m] assms by simp
  then show ?thesis by (metis take_all order_refl)
qed

text \<open>
  The loop never ends when none of the pieces it looks at ends in \<open>.ts\<close>: the pieces
  are the first \<open>index\<close> characters of what is left after \<open>j * (index + 1)\<close>
  characters, and once the rest is empty it stays empty.
\<close>

lemma loop_returns_only_on_ts:
  assumes "getModuleWithQueryString_loop m i name = Some y"
    and "0 \<le> i" and "name = drop (k * (nat i + 1)) m"
    and "\<And>j. \<not> endsWith (take (nat i) (drop (j * (nat i + 1)) m)) ''.ts''"
  shows False
  using assms
proof (induction m i name y arbitrary: k
    rule: getModuleWithQueryString_loop.raw_induct[rotated 1, consumes 1])
  case (1 loop m i name y)
  have "\<not> endsWith (substring name 0 i) ''.ts''"
    using 1(3,4) 1(5)[of k] by (simp add: substring_0)
  then have rec: "loop m i (substring_from name (i + 1)) = Some y"
    using 1(2) \<open>0 \<le> i\<close> by simp
  have "substring_from name (i + 1) = drop (Suc k * (nat i + 1)) m"
    using 1(3,4) by (simp add: substring_from_drop nat_add_distrib add_ac)
  from 1(1)[OF rec \<open>0 \<le> i\<close> this 1(5)] show ?case .
qed

lemma loop_diverges:
  assumes "0 \<le> i"
    and "\<And>j. \<not> endsWith (take (nat i) (drop (j * (nat i + 1)) m)) ''.ts''"
  shows "getModuleWithQueryString_loop m i m = None"
proof (cases "getModuleWithQueryString_loop m i m")
  case None
  then show ?thesis .
next
  case (Some y)
  from loop_returns_only_on_ts[OF Some assms(1) _ assms(2), of 0] show ?thesis by simp
qed

text \<open>
  In particular the normalizer never returns when fewer than three characters come
  before the first \<open>?\<close>: no piece of at most two characters ends in \<open>.ts\<close>.
\<close>

lemma strip_diverges_short:
  assumes "CHR ''?'' \<in> set m" and "indexOf m ''?'' < 3"
  shows "stripExtNameDotTs m = None"
proof -
  let ?i = "indexOf m ''?''"
  have i0: "0 \<le> ?i" using indexOf_found[OF assms(1)] .
  have "\<not> endsWith (take (nat ?i) (drop (j * (nat ?i + 1)) m)) ''.ts''" for j
    using assms(2) by (auto simp: endsWith_def)
  from loop_diverges[OF i0 this] show ?thesis
    by (simp add: stripExtNameDotTs_def getModuleWithQueryString_def)
qed

subsection \<open>The normalizer: claims\<close>

text \<open>
  C1. The specifier \<open>a?b\<close> has a query marker and no segment ending in \<open>.ts\<close> before
  it, so the normalizer should return it unchanged. It never returns: \<open>index\<close> is not
  computed again inside the loop, whose condition \<open>index !== -1\<close> therefore stays true
  while \<open>name\<close> shrinks to the empty string and stays there.
\<close>

theorem stripExtNameDotTs_never_returns:
  "CHR ''?'' \<in> set ''a?b'' \<and> \<not> ts_segment_precedes_query ''a?b'' \<and>
   stripExtNameDotTs ''a?b'' = None"
proof -
  have "stripExtNameDotTs ''a?b'' = None"
    by (rule strip_diverges_short) simp_all
  moreover have "\<not> ts_segment_precedes_query ''a?b''"
    by code_simp
  ultimately show ?thesis by simp
qed

text \<open>
  C2 (as the code has it). The specifier \<open>mod.ts?x=1\<close> is cut at its query marker: the
  result is \<open>mod.ts\<close>, with the query gone and the extension kept. The plain specifier
  \<open>mod.ts\<close> loses its extension and becomes \<open>mod\<close>.
\<close>

theorem stripExtNameDotTs_query_example:
  "stripExtNameDotTs ''mod.ts?x=1'' = Some ''mod.ts'' \<and>
   stripExtNameDotTs ''mod.ts'' = Some ''mod''"
  by code_simp

text \<open>
  C2 as the specification states it fails: the normalizer does not hand \<open>mod.ts?x=1\<close>
  back unchanged.
\<close>

theorem stripExtNameDotTs_query_kept_counterexample:
  "stripExtNameDotTs ''mod.ts?x=1'' \<noteq> Some ''mod.ts?x=1''"
  by code_simp

lemma loop_first_hit:
  assumes "0 \<le> i" and "endsWith (take (nat i) m) ''.ts''"
  shows "getModuleWithQueryString_loop m i m = Some (Some (take (nat i) m))"
  using assms
  by (subst getModuleWithQueryString_loop.simps) (simp add: substring_0)

lemma strip_first_hit:
  assumes "CHR ''?'' \<in> set m" and "endsWith (take (nat (indexOf m ''?'')) m) ''.ts''"
  shows "stripExtNameDotTs m = Some (take (nat (indexOf m ''?'')) m)"
  using loop_first_hit[OF indexOf_found[OF assms(1)] assms(2)] endsWith_nonempty[OF assms(2)]
  by (simp add: stripExtNameDotTs_def getModuleWithQueryString_def truthy_string_def)

lemma query_found_has_marker:
  assumes "getModuleWithQueryString m = Some (Some q)"
  shows "CHR ''?'' \<in> set m"
proof (rule ccontr)
  assume "CHR ''?'' \<notin> set m"
  then have "indexOf m ''?'' = - 1" using indexOf_none[of m "CHR ''?''"] by simp
  then show False using assms by (simp add: getModuleWithQueryString_def loop_no_query)
qed

lemma strip_of_query:
  assumes "getModuleWithQueryString m = Some (Some q)"
  shows "stripExtNameDotTs m = Some q \<and> endsWith q ''.ts'' \<and> take (length q) m = q"
proof -
  from getModuleWithQueryString_result[OF assms query_found_has_marker[OF assms]]
  obtain n where q: "q = take n m" "endsWith q ''.ts''" by auto
  then have "stripExtNameDotTs m = Some q"
    using assms endsWith_nonempty[of q] by (simp add: stripExtNameDotTs_def truthy_string_def)
  moreover have "take (length q) m = q" using q(1) by (simp add: min_def)
  ultimately show ?thesis using q(2) by simp
qed

lemma bar_raw_index:
  "endsWith (take (nat (indexOf ''foo/bar.ts?raw'' ''?'')) ''foo/bar.ts?raw'') ''.ts''"
  "take (nat (indexOf ''foo/bar.ts?raw'' ''?'')) ''foo/bar.ts?raw'' = ''foo/bar.ts''"
  "CHR ''?'' \<in> set ''foo/bar.ts?raw''"
  "CHR ''?'' \<notin> set ''foo/bar.ts''"
  "endsWith ''foo/bar.ts'' ''.ts''"
  by code_simp+

lemma later_query: "getModuleWithQueryString ''abc?.ts?x'' = Some (Some ''abc?.ts'')"
  by code_simp

text \<open>
  C7 (as the code has it). A specifier without a query marker loses a final \<open>.ts\<close>,
  exactly three characters, and is otherwise returned unchanged. When the query step
  finds a place to cut the specifier, the normalizer returns the specifier cut there, as
  it is: it ends in \<open>.ts\<close> and that extension is not removed. The query step finds
  one whenever the first \<open>?\<close> of the specifier comes right after a segment ending in
  \<open>.ts\<close>, and the normalizer then returns the specifier cut at that \<open>?\<close>. Whatever
  the normalizer returns for a specifier with a query marker is what the query step has
  found. The two examples of the specification hold.
\<close>

theorem stripExtNameDotTs_extension:
  "(CHR ''?'' \<notin> set m \<longrightarrow> stripExtNameDotTs m = Some (spec_extension_strip m)) \<and>
   (getModuleWithQueryString m = Some (Some q) \<longrightarrow>
      stripExtNameDotTs m = Some q \<and> endsWith q ''.ts'' \<and> take (length q) m = q) \<and>
   (CHR ''?'' \<in> set m \<and> endsWith (take (nat (indexOf m ''?'')) m) ''.ts'' \<longrightarrow>
      getModuleWithQueryString m = Some (Some (take (nat (indexOf m ''?'')) m)) \<and>
      stripExtNameDotTs m = Some (take (nat (indexOf m ''?'')) m)) \<and>
   (CHR ''?'' \<in> set m \<and> stripExtNameDotTs m = Some q \<longrightarrow>
      getModuleWithQueryString m = Some (Some q) \<and> endsWith q ''.ts'' \<and>
      take (length q) m = q) \<and>
   stripExtNameDotTs ''foo/bar.ts'' = Some ''foo/bar'' \<and>
   stripExtNameDotTs ''foo/bar.js'' = Some ''foo/bar.js''"
proof (intro conjI impI)
  assume "CHR ''?'' \<notin> set m"
  then show "stripExtNameDotTs m = Some (spec_extension_strip m)"
    by (simp add: strip_no_query spec_extension_strip_def)
next
  assume "getModuleWithQueryString m = Some (Some q)"
  then show "stripExtNameDotTs m = Some q" "endsWith q ''.ts''" "take (length q) m = q"
    using strip_of_query by blast+
next
  assume a: "CHR ''?'' \<in> set m \<and> endsWith (take (nat (indexOf m ''?'')) m) ''.ts''"
  then show "getModuleWithQueryString m = Some (Some (take (nat (indexOf m ''?'')) m))"
    using loop_first_hit[of "indexOf m ''?''" m] indexOf_found[of "CHR ''?''" m]
    by (simp add: getModuleWithQueryString_def)
  show "stripExtNameDotTs m = Some (take (nat (indexOf m ''?'')) m)"
    using a strip_first_hit by blast
next
  assume a: "CHR ''?'' \<in> set m \<and> stripExtNameDotTs m = Some q"
  then have q: "endsWith q ''.ts''" "\<exists>n. q = take n m"
    "getModuleWithQueryString m = Some (Some q)"
    using strip_query[of m q] by simp_all
  show "getModuleWithQueryString m = Some (Some q)" "endsWith q ''.ts''" using q by simp_all
  from q(2) obtain n where "q = take n m" ..
  then show "take (length q) m = q" by (simp add: min_def)
next
  show "stripExtNameDotTs ''foo/bar.ts'' = Some ''foo/bar''" by code_simp
next
  show "stripExtNameDotTs ''foo/bar.js'' = Some ''foo/bar.js''" by code_simp
qed

theorem stripExtNameDotTs_extension_witness:
  "CHR ''?'' \<notin> set ''foo/bar.ts'' \<and>
   stripExtNameDotTs ''foo/bar.ts'' = Some (spec_extension_strip ''foo/bar.ts'') \<and>
   CHR ''?'' \<in> set ''foo/bar.ts?raw'' \<and>
   endsWith (take (nat (indexOf ''foo/bar.ts?raw'' ''?'')) ''foo/bar.ts?raw'') ''.ts'' \<and>
   getModuleWithQueryString ''foo/bar.ts?raw'' = Some (Some ''foo/bar.ts'') \<and>
   stripExtNameDotTs ''foo/bar.ts?raw'' = Some ''foo/bar.ts'' \<and>
   endsWith ''foo/bar.ts'' ''.ts'' \<and>
   getModuleWithQueryString ''abc?.ts?x'' = Some (Some ''abc?.ts'') \<and>
   stripExtNameDotTs ''abc?.ts?x'' = Some ''abc?.ts'' \<and>
   endsWith ''abc?.ts'' ''.ts''"
proof -
  have a: "stripExtNameDotTs ''foo/bar.ts'' = Some (spec_extension_strip ''foo/bar.ts'')"
    using stripExtNameDotTs_extension[of "''foo/bar.ts''"] bar_raw_index(4) by blast
  have b: "getModuleWithQueryString ''foo/bar.ts?raw'' =
        Some (Some (take (nat (indexOf ''foo/bar.ts?raw'' ''?'')) ''foo/bar.ts?raw'')) \<and>
      stripExtNameDotTs ''foo/bar.ts?raw'' =
        Some (take (nat (indexOf ''foo/bar.ts?raw'' ''?'')) ''foo/bar.ts?raw'')"
    using stripExtNameDotTs_extension[of "''foo/bar.ts?raw''"] bar_raw_index(1,3) by blast
  have c: "stripExtNameDotTs ''abc?.ts?x'' = Some ''abc?.ts'' \<and> endsWith ''abc?.ts'' ''.ts''"
    using stripExtNameDotTs_extension[of "''abc?.ts?x''" "''abc?.ts''"] later_query by blast
  show ?thesis
    using a b[unfolded bar_raw_index(2)] c bar_raw_index later_query by blast
qed

text \<open>
  C7 as the specification states it fails: for \<open>foo/bar.ts?raw\<close> the query step leaves
  \<open>foo/bar.ts\<close>, which ends in \<open>.ts\<close>; the extension rule of the specification would
  make it \<open>foo/bar\<close>, the normalizer returns \<open>foo/bar.ts\<close>.
\<close>

theorem stripExtNameDotTs_extension_counterexample:
  "spec_query_split ''foo/bar.ts?raw'' = ''foo/bar.ts'' \<and>
   spec_extension_strip (spec_query_split ''foo/bar.ts?raw'') = ''foo/bar'' \<and>
   stripExtNameDotTs ''foo/bar.ts?raw'' = Some ''foo/bar.ts''"
  by code_simp

subsection \<open>The two functions of the redirect resolver, as the source writes them\<close>

lemma convertRemoteToLocalCache_unfold:
  "convertRemoteToLocalCache H moduleName =
     (if \<not> startsWith moduleName ''http://'' \<and> \<not> startsWith moduleName ''https://''
      then Some (Inr moduleName)
      else fallbackHeader H (cache_path H moduleName))"
  unfolding convertRemoteToLocalCache_def fallbackHeader_def cache_path_def
  by (subst redirect_rec.simps) (simp add: Let_def)

lemma fallbackHeader_unfold:
  "fallbackHeader H modulePath =
     (if existsSync H (validPath_of modulePath) then Some (Inr modulePath)
      else if existsSync H (validPath_of modulePath @ ''.headers.json'') then
        (case readFileSync H (validPath_of modulePath @ ''.headers.json'') of
           Inl e \<Rightarrow> Some (Inl e)
         | Inr doc \<Rightarrow>
             (case JSON_parse H doc of
                None \<Rightarrow> Some (Inl SyntaxError)
              | Some headers \<Rightarrow>
                  (case get_property headers ''redirect_to'' of
                     Inl e \<Rightarrow> Some (Inl e)
                   | Inr (Some (JStr redirect_to)) \<Rightarrow>
                       Option.bind (stripExtNameDotTs redirect_to) (convertRemoteToLocalCache H)
                   | Inr _ \<Rightarrow> Some (Inl TypeError))))
      else Some (Inr modulePath))"
  unfolding convertRemoteToLocalCache_def fallbackHeader_def validPath_of_def
  by (subst redirect_rec.simps)
    (simp add: Let_def split: sum.splits option.splits json.splits)

lemma fallbackHeader_present:
  "existsSync H (validPath_of p) \<Longrightarrow> fallbackHeader H p = Some (Inr p)"
  by (simp add: fallbackHeader_unfold)

lemma fallbackHeader_miss:
  "\<not> existsSync H (validPath_of p) \<Longrightarrow>
   \<not> existsSync H (validPath_of p @ ''.headers.json'') \<Longrightarrow>
   fallbackHeader H p = Some (Inr p)"
  by (simp add: fallbackHeader_unfold)

lemma fallbackHeader_redirect:
  "\<not> existsSync H (validPath_of p) \<Longrightarrow>
   existsSync H (validPath_of p @ ''.headers.json'') \<Longrightarrow>
   readFileSync H (validPath_of p @ ''.headers.json'') = Inr doc \<Longrightarrow>
   JSON_parse H doc = Some headers \<Longrightarrow>
   get_property headers ''redirect_to'' = Inr (Some (JStr redirect_to)) \<Longrightarrow>
   fallbackHeader H p =
     Option.bind (stripExtNameDotTs redirect_to) (convertRemoteToLocalCache H)"
  by (simp add: fallbackHeader_unfold)

lemma convertRemoteToLocalCache_local:
  "\<not> startsWith m ''http://'' \<Longrightarrow> \<not> startsWith m ''https://'' \<Longrightarrow>
   convertRemoteToLocalCache H m = Some (Inr m)"
  by (simp add: convertRemoteToLocalCache_unfold)

lemma convertRemoteToLocalCache_remote:
  "startsWith m ''http://'' \<or> startsWith m ''https://'' \<Longrightarrow>
   convertRemoteToLocalCache H m = fallbackHeader H (cache_path H m)"
  by (auto simp: convertRemoteToLocalCache_unfold)

text \<open>With an absolute Deno directory the working directory plays no part.\<close>

lemma path_resolve_absolute:
  assumes "D \<noteq> []" "hd D = CHR ''/''" "X \<noteq> []" "hd X \<noteq> CHR ''/''"
  shows "path_resolve c [D, ''deps'', X] =
         ''/'' @ normalizeString (D @ ''/deps/'' @ X @ ''/'') False"
  using assms by (simp add: path_resolve_def resolve_step_def)

text \<open>Normalizing changes nothing in a path of names.\<close>

lemma split_path_nonempty: "split_path s \<noteq> []"
  by (induction s) (auto split: list.splits)

lemma split_path_append: "split_path (a @ CHR ''/'' # b) = split_path a @ split_path b"
proof (induction a)
  case Nil
  show ?case by simp
next
  case (Cons c a)
  show ?case
  proof (cases "c = CHR ''/''")
    case True
    then show ?thesis using Cons by simp
  next
    case False
    obtain x xs where x: "split_path a = x # xs"
      using split_path_nonempty[of a] by (cases "split_path a") auto
    show ?thesis using False Cons x by simp
  qed
qed

lemma join_split: "join_path (split_path s) = s"
proof (induction s)
  case Nil
  show ?case by simp
next
  case (Cons c s)
  obtain x xs where x: "split_path s = x # xs"
    using split_path_nonempty[of s] by (cases "split_path s") auto
  show ?case
  proof (cases "c = CHR ''/''")
    case True
    then show ?thesis using Cons x by simp
  next
    case False
    then show ?thesis using Cons x by (cases xs) auto
  qed
qed

lemma join_path_append:
  "xs \<noteq> [] \<Longrightarrow> ys \<noteq> [] \<Longrightarrow> join_path (xs @ ys) = join_path xs @ ''/'' @ join_path ys"
proof (induction xs rule: join_path.induct)
  case 1
  then show ?case by simp
next
  case (2 x)
  then show ?case by (cases ys) auto
next
  case (3 x y xs)
  then show ?case by simp
qed

lemma foldl_plain:
  "list_all (\<lambda>seg. seg \<noteq> [] \<and> seg \<noteq> ''.'' \<and> seg \<noteq> ''..'') segs \<Longrightarrow>
   foldl (normalize_segment a) res segs = res @ segs"
  by (induction segs arbitrary: res) (auto simp: normalize_segment_def)

lemma normalize_plain:
  assumes "plain_path d" and "plain_path x"
  shows "normalizeString (''/'' @ d @ ''/deps/'' @ x @ ''/'') False = d @ ''/deps/'' @ x"
proof -
  have eq: "''/'' @ d @ ''/deps/'' @ x @ ''/'' =
      [] @ CHR ''/'' # (d @ CHR ''/'' # (''deps'' @ CHR ''/'' # (x @ CHR ''/'' # [])))"
    by simp
  have sp: "split_path (''/'' @ d @ ''/deps/'' @ x @ ''/'') =
      [[]] @ split_path d @ [''deps''] @ split_path x @ [[]]"
    unfolding eq split_path_append by simp
  have f1: "foldl (normalize_segment False) [] ([[]] @ split_path d @ [''deps''] @ split_path x @ [[]]) =
      split_path d @ [''deps''] @ split_path x"
    using assms by (simp add: foldl_plain plain_path_def normalize_segment_def)
  have "join_path (split_path d @ [''deps''] @ split_path x) =
      join_path (split_path d) @ ''/'' @ join_path ([''deps''] @ split_path x)"
    by (rule join_path_append) (simp_all add: split_path_nonempty)
  also have "join_path ([''deps''] @ split_path x) = ''deps'' @ ''/'' @ join_path (split_path x)"
    using join_path_append[of "[''deps'']" "split_path x"] by (simp add: split_path_nonempty)
  finally show ?thesis
    unfolding normalizeString_def sp f1 by (simp add: join_split)
qed

lemma cache_path_plain:
  assumes "startsWith m ''http://'' \<or> startsWith m ''https://''"
    and "getDenoDir H = ''/'' @ d" and "plain_path d" and "plain_path (replace m ''://'' ''/'')"
  shows "cache_path H m = getDenoDir H @ ''/deps/'' @ replace m ''://'' ''/''"
proof -
  have "replace m ''://'' ''/'' \<noteq> [] \<and> hd (replace m ''://'' ''/'') \<noteq> CHR ''/''"
    using assms(1) replace_http[of m] replace_https[of m] by auto
  then have "cache_path H m =
      ''/'' @ normalizeString (getDenoDir H @ ''/deps/'' @ replace m ''://'' ''/'' @ ''/'') False"
    unfolding cache_path_def using assms(2) by (simp add: path_resolve_absolute)
  also have "\<dots> = ''/'' @ d @ ''/deps/'' @ replace m ''://'' ''/''"
    using normalize_plain[OF assms(3,4)] assms(2) by simp
  finally show ?thesis using assms(2) by simp
qed

subsection \<open>Facts about the example host\<close>

lemma example_exists:
  "existsSync example_host p = (map_of example_files p \<noteq> None)"
  by (simp add: example_host_def)

lemma example_read:
  "readFileSync example_host p =
     (case map_of example_files p of None \<Rightarrow> Inl ENOENT | Some c \<Rightarrow> Inr c)"
  by (simp add: example_host_def)

lemma example_parse: "JSON_parse example_host = map_of example_documents"
  by (simp add: example_host_def)

lemma example_denoDir: "getDenoDir example_host = ''/home/u/.deno''"
  by (simp add: example_host_def)

lemma example_cache_path:
  "cache_path example_host ''https://deno.land/x/a/mod'' =
     ''/home/u/.deno/deps/https/deno.land/x/a/mod''"
  "cache_path example_host ''https://deno.land/x/new/mod'' =
     ''/home/u/.deno/deps/https/deno.land/x/new/mod''"
  "cache_path example_host ''https://deno.land/x/std/log/mod'' =
     ''/home/u/.deno/deps/https/deno.land/x/std/log/mod''"
  by code_simp+

lemma example_strip:
  "stripExtNameDotTs ''https://deno.land/x/a/mod.ts'' = Some ''https://deno.land/x/a/mod''"
  "stripExtNameDotTs ''https://deno.land/x/new/mod.ts'' = Some ''https://deno.land/x/new/mod''"
  "stripExtNameDotTs ''./vendor/mod.ts'' = Some ''./vendor/mod''"
  by code_simp+

lemma example_validPath:
  "validPath_of ''/home/u/.deno/deps/https/deno.land/x/a/mod'' =
     ''/home/u/.deno/deps/https/deno.land/x/a/mod.ts''"
  "validPath_of ''/home/u/.deno/deps/https/deno.land/x/new/mod'' =
     ''/home/u/.deno/deps/https/deno.land/x/new/mod.ts''"
  "validPath_of ''/home/u/.deno/deps/https/deno.land/x/old/mod'' =
     ''/home/u/.deno/deps/https/deno.land/x/old/mod.ts''"
  "validPath_of ''/home/u/.deno/deps/https/deno.land/x/local/mod'' =
     ''/home/u/.deno/deps/https/deno.land/x/local/mod.ts''"
  "validPath_of ''/home/u/.deno/deps/https/deno.land/x/std/log/mod'' =
     ''/home/u/.deno/deps/https/deno.land/x/std/log/mod.ts''"
  by code_simp+

lemma example_remote:
  "startsWith ''https://deno.land/x/a/mod'' ''https://''"
  "startsWith ''https://deno.land/x/new/mod'' ''https://''"
  "startsWith ''https://deno.land/x/std/log/mod'' ''https://''"
  "\<not> startsWith ''./vendor/mod.ts'' ''http://''"
  "\<not> startsWith ''./vendor/mod.ts'' ''https://''"
  by code_simp+

subsection \<open>The redirect resolver: claims\<close>

text \<open>
  A redirect of a module to itself. Whatever the recursion returns, it does not return
  it for the two calls of the cycle: each of them only returns what the other one does.
\<close>

lemma cycle_calls_return_nothing:
  assumes "redirect_rec H call = Some y" and "H = example_host"
  shows "call \<noteq> Inl ''/home/u/.deno/deps/https/deno.land/x/a/mod'' \<and>
         call \<noteq> Inr ''https://deno.land/x/a/mod''"
  using assms
proof (induction H call y rule: redirect_rec.raw_induct[rotated 1, consumes 1])
  case (1 rec H call y)
  show ?case
  proof (intro conjI notI)
    assume c: "call = Inl ''/home/u/.deno/deps/https/deno.land/x/a/mod''"
    have v: "\<not> endsWith ''/home/u/.deno/deps/https/deno.land/x/a/mod'' ''.ts''"
      by code_simp
    have "rec H (Inr ''https://deno.land/x/a/mod'') = Some y"
      using 1(2) unfolding c
      by (simp add: 1(3) v example_exists example_read example_parse example_strip
          example_files_def example_documents_def own_properties_def Let_def)
    from 1(1)[OF this 1(3)] show False by simp
  next
    assume c: "call = Inr ''https://deno.land/x/a/mod''"
    have "rec H (Inl ''/home/u/.deno/deps/https/deno.land/x/a/mod'') = Some y"
      using 1(2) example_cache_path(1) unfolding c
      by (simp add: 1(3) example_remote cache_path_def Let_def)
    from 1(1)[OF this 1(3)] show False by simp
  qed
qed

text \<open>
  C3. In the example host the sidecar of \<open>https://deno.land/x/a/mod.ts\<close> redirects to
  \<open>https://deno.land/x/a/mod.ts\<close> and the module itself is not on disk. The redirect
  resolver is not total there: the call for the module's cache path never returns a
  path. (The source marks the gap: \<open>// TODO: avoid Circular\<close>.)
\<close>

theorem fallbackHeader_cycle_never_returns:
  "\<not> existsSync example_host ''/home/u/.deno/deps/https/deno.land/x/a/mod.ts'' \<and>
   readFileSync example_host ''/home/u/.deno/deps/https/deno.land/x/a/mod.ts.headers.json'' =
     Inr ''{\"redirect_to\":\"https://deno.land/x/a/mod.ts\"}'' \<and>
   fallbackHeader example_host ''/home/u/.deno/deps/https/deno.land/x/a/mod'' = None"
proof -
  have "fallbackHeader example_host ''/home/u/.deno/deps/https/deno.land/x/a/mod'' = None"
  proof (cases "fallbackHeader example_host ''/home/u/.deno/deps/https/deno.land/x/a/mod''")
    case None
    then show ?thesis .
  next
    case (Some y)
    then show ?thesis
      using cycle_calls_return_nothing[of example_host
          "Inl ''/home/u/.deno/deps/https/deno.land/x/a/mod''" y]
      by (simp add: fallbackHeader_def)
  qed
  then show ?thesis
    by (simp add: example_exists example_read example_files_def)
qed

text \<open>
  C4. For every host and every cache path, with the candidate \<open>validPath_of p\<close> (the
  path with \<open>.ts\<close> appended unless it ends in \<open>.ts\<close>): when a file exists at the
  candidate the result is \<open>p\<close> itself; when neither that file nor the sidecar
  \<open>candidate.headers.json\<close> exists the result is \<open>p\<close>; when only the sidecar exists and
  its \<open>redirect_to\<close> is the string \<open>r\<close>, the result is
  \<open>convertRemoteToLocalCache (stripExtNameDotTs r)\<close>; and with
  \<open>https://deno.land/x/new/mod.ts\<close> for \<open>r\<close> that is what the cache mapper makes of
  \<open>https://deno.land/x/new/mod\<close>.
\<close>

theorem fallbackHeader_algorithm:
  "(existsSync H (validPath_of p) \<longrightarrow> fallbackHeader H p = Some (Inr p)) \<and>
   (\<not> existsSync H (validPath_of p) \<and> \<not> existsSync H (validPath_of p @ ''.headers.json'') \<longrightarrow>
      fallbackHeader H p = Some (Inr p)) \<and>
   (\<not> existsSync H (validPath_of p) \<and> existsSync H (validPath_of p @ ''.headers.json'') \<and>
    readFileSync H (validPath_of p @ ''.headers.json'') = Inr doc \<and>
    JSON_parse H doc = Some headers \<and>
    get_property headers ''redirect_to'' = Inr (Some (JStr r)) \<longrightarrow>
      fallbackHeader H p = Option.bind (stripExtNameDotTs r) (convertRemoteToLocalCache H) \<and>
      (r = ''https://deno.land/x/new/mod.ts'' \<longrightarrow>
         fallbackHeader H p = convertRemoteToLocalCache H ''https://deno.land/x/new/mod''))"
proof (intro conjI impI)
  assume "existsSync H (validPath_of p)"
  then show "fallbackHeader H p = Some (Inr p)" by (rule fallbackHeader_present)
next
  assume "\<not> existsSync H (validPath_of p) \<and> \<not> existsSync H (validPath_of p @ ''.headers.json'')"
  then show "fallbackHeader H p = Some (Inr p)" by (simp add: fallbackHeader_miss)
next
  assume a: "\<not> existsSync H (validPath_of p) \<and> existsSync H (validPath_of p @ ''.headers.json'') \<and>
    readFileSync H (validPath_of p @ ''.headers.json'') = Inr doc \<and>
    JSON_parse H doc = Some headers \<and>
    get_property headers ''redirect_to'' = Inr (Some (JStr r))"
  then show bind: "fallbackHeader H p =
      Option.bind (stripExtNameDotTs r) (convertRemoteToLocalCache H)"
    by (simp add: fallbackHeader_redirect)
  assume "r = ''https://deno.land/x/new/mod.ts''"
  then show "fallbackHeader H p = convertRemoteToLocalCache H ''https://deno.land/x/new/mod''"
    using bind by (simp add: example_strip)
qed

lemma example_new_mod:
  "convertRemoteToLocalCache example_host ''https://deno.land/x/new/mod'' =
   Some (Inr ''/home/u/.deno/deps/https/deno.land/x/new/mod'')"
  by (simp add: convertRemoteToLocalCache_unfold example_remote example_cache_path
      fallbackHeader_miss example_validPath example_exists example_files_def)

theorem fallbackHeader_algorithm_witness:
  "existsSync example_host (validPath_of ''/home/u/.deno/deps/https/deno.land/x/std/log/mod'') \<and>
   fallbackHeader example_host ''/home/u/.deno/deps/https/deno.land/x/std/log/mod'' =
     Some (Inr ''/home/u/.deno/deps/https/deno.land/x/std/log/mod'') \<and>
   \<not> existsSync example_host (validPath_of ''/home/u/.deno/deps/https/deno.land/x/new/mod'') \<and>
   fallbackHeader example_host ''/home/u/.deno/deps/https/deno.land/x/new/mod'' =
     Some (Inr ''/home/u/.deno/deps/https/deno.land/x/new/mod'') \<and>
   \<not> existsSync example_host (validPath_of ''/home/u/.deno/deps/https/deno.land/x/old/mod'') \<and>
   existsSync example_host
     (validPath_of ''/home/u/.deno/deps/https/deno.land/x/old/mod'' @ ''.headers.json'') \<and>
   fallbackHeader example_host ''/home/u/.deno/deps/https/deno.land/x/old/mod'' =
     Some (Inr ''/home/u/.deno/deps/https/deno.land/x/new/mod'')"
  using fallbackHeader_algorithm[of example_host
      "''/home/u/.deno/deps/https/deno.land/x/std/log/mod''"]
    fallbackHeader_algorithm[of example_host
      "''/home/u/.deno/deps/https/deno.land/x/new/mod''"]
    fallbackHeader_algorithm[of example_host
      "''/home/u/.deno/deps/https/deno.land/x/old/mod''"
      "''{\"redirect_to\":\"https://deno.land/x/new/mod.ts\"}''"
      "JObj [(''redirect_to'', JStr ''https://deno.land/x/new/mod.ts'')]"
      "''https://deno.land/x/new/mod.ts''"]
    example_new_mod
  by (simp add: example_validPath example_exists example_read example_parse example_strip
      example_files_def example_documents_def own_properties_def)

text \<open>
  C10. When the sidecar's \<open>redirect_to\<close> is a string that begins neither with
  \<open>http://\<close> nor with \<open>https://\<close>, the redirect resolver returns what
  \<open>stripExtNameDotTs\<close> makes of it, as it is: the result does not depend on the Deno
  directory or on any further file, since the cache mapper is the identity on it.
\<close>

theorem fallbackHeader_local_redirect:
  assumes "\<not> existsSync H (validPath_of p)"
    and "existsSync H (validPath_of p @ ''.headers.json'')"
    and "readFileSync H (validPath_of p @ ''.headers.json'') = Inr doc"
    and "JSON_parse H doc = Some headers"
    and "get_property headers ''redirect_to'' = Inr (Some (JStr r))"
    and "\<not> startsWith r ''http://''" and "\<not> startsWith r ''https://''"
  shows "fallbackHeader H p = map_option Inr (stripExtNameDotTs r)"
proof (cases "stripExtNameDotTs r")
  case None
  then show ?thesis using fallbackHeader_redirect[OF assms(1-5)] by simp
next
  case (Some q)
  then obtain n where "q = take n r" using strip_take by blast
  then have "\<not> startsWith q ''http://''" "\<not> startsWith q ''https://''"
    using assms(6,7) startsWith_take by blast+
  then have "convertRemoteToLocalCache H q = Some (Inr q)"
    by (rule convertRemoteToLocalCache_local)
  then show ?thesis using fallbackHeader_redirect[OF assms(1-5)] Some by simp
qed

theorem fallbackHeader_local_redirect_witness:
  "\<not> existsSync example_host (validPath_of ''/home/u/.deno/deps/https/deno.land/x/local/mod'') \<and>
   readFileSync example_host
     (validPath_of ''/home/u/.deno/deps/https/deno.land/x/local/mod'' @ ''.headers.json'') =
     Inr ''{\"redirect_to\":\"./vendor/mod.ts\"}'' \<and>
   \<not> startsWith ''./vendor/mod.ts'' ''http://'' \<and> \<not> startsWith ''./vendor/mod.ts'' ''https://'' \<and>
   fallbackHeader example_host ''/home/u/.deno/deps/https/deno.land/x/local/mod'' =
     Some (Inr ''./vendor/mod'')"
  using fallbackHeader_local_redirect[of example_host
      "''/home/u/.deno/deps/https/deno.land/x/local/mod''"
      "''{\"redirect_to\":\"./vendor/mod.ts\"}''"
      "JObj [(''redirect_to'', JStr ''./vendor/mod.ts'')]"
      "''./vendor/mod.ts''"]
  by (simp add: example_validPath example_exists example_read example_parse example_remote
      example_strip example_files_def example_documents_def own_properties_def)

text \<open>
  C8. A specifier that begins with \<open>http://\<close> or \<open>https://\<close> is mapped to the path
  that \<open>path.resolve\<close> makes of the Deno directory, \<open>deps\<close> and the specifier with its
  \<open>://\<close> replaced by a slash (the \<open>://\<close> after the scheme: the first one), and that
  path is handed to the redirect resolver; with an absolute Deno directory the path is
  the normal form of \<open>DenoDir/deps/scheme/rest\<close>, and it is
  \<open>DenoDir/deps/scheme/rest\<close> itself when the segments of the Deno directory and of
  the specifier are all names. With the Deno directory
  \<open>/home/u/.deno\<close> the path for \<open>https://deno.land/x/std/log/mod\<close> is
  \<open>/home/u/.deno/deps/https/deno.land/x/std/log/mod\<close>, and it is the result when the
  module is on disk or has no sidecar. Every other specifier is returned as it is.
\<close>

theorem convertRemoteToLocalCache_mapping:
  "(startsWith m ''http://'' \<or> startsWith m ''https://'' \<longrightarrow>
      convertRemoteToLocalCache H m = fallbackHeader H (cache_path H m)) \<and>
   (startsWith m ''http://'' \<longrightarrow> replace m ''://'' ''/'' = ''http/'' @ drop 7 m) \<and>
   (startsWith m ''https://'' \<longrightarrow> replace m ''://'' ''/'' = ''https/'' @ drop 8 m) \<and>
   ((startsWith m ''http://'' \<or> startsWith m ''https://'') \<and>
    getDenoDir H \<noteq> [] \<and> hd (getDenoDir H) = CHR ''/'' \<longrightarrow>
      cache_path H m =
        ''/'' @ normalizeString (getDenoDir H @ ''/deps/'' @ replace m ''://'' ''/'' @ ''/'') False) \<and>
   ((startsWith m ''http://'' \<or> startsWith m ''https://'') \<and>
    getDenoDir H = ''/'' @ d \<and> plain_path d \<and> plain_path (replace m ''://'' ''/'') \<longrightarrow>
      cache_path H m = getDenoDir H @ ''/deps/'' @ replace m ''://'' ''/'') \<and>
   (\<not> startsWith m ''http://'' \<and> \<not> startsWith m ''https://'' \<longrightarrow>
      convertRemoteToLocalCache H m = Some (Inr m)) \<and>
   (getDenoDir H = ''/home/u/.deno'' \<longrightarrow>
      cache_path H ''https://deno.land/x/std/log/mod'' =
        ''/home/u/.deno/deps/https/deno.land/x/std/log/mod'' \<and>
      (existsSync H ''/home/u/.deno/deps/https/deno.land/x/std/log/mod.ts'' \<or>
       \<not> existsSync H ''/home/u/.deno/deps/https/deno.land/x/std/log/mod.ts.headers.json'' \<longrightarrow>
         convertRemoteToLocalCache H ''https://deno.land/x/std/log/mod'' =
           Some (Inr ''/home/u/.deno/deps/https/deno.land/x/std/log/mod'')))"
proof (intro conjI impI)
  assume "startsWith m ''http://'' \<or> startsWith m ''https://''"
  then show "convertRemoteToLocalCache H m = fallbackHeader H (cache_path H m)"
    by (rule convertRemoteToLocalCache_remote)
next
  assume "startsWith m ''http://''"
  then show "replace m ''://'' ''/'' = ''http/'' @ drop 7 m" by (rule replace_http)
next
  assume "startsWith m ''https://''"
  then show "replace m ''://'' ''/'' = ''https/'' @ drop 8 m" by (rule replace_https)
next
  assume a: "(startsWith m ''http://'' \<or> startsWith m ''https://'') \<and>
    getDenoDir H \<noteq> [] \<and> hd (getDenoDir H) = CHR ''/''"
  then have "replace m ''://'' ''/'' \<noteq> [] \<and> hd (replace m ''://'' ''/'') \<noteq> CHR ''/''"
    using replace_http[of m] replace_https[of m] by auto
  then show "cache_path H m =
      ''/'' @ normalizeString (getDenoDir H @ ''/deps/'' @ replace m ''://'' ''/'' @ ''/'') False"
    using a unfolding cache_path_def by (simp add: path_resolve_absolute)
next
  assume "(startsWith m ''http://'' \<or> startsWith m ''https://'') \<and>
    getDenoDir H = ''/'' @ d \<and> plain_path d \<and> plain_path (replace m ''://'' ''/'')"
  then show "cache_path H m = getDenoDir H @ ''/deps/'' @ replace m ''://'' ''/''"
    using cache_path_plain[of m H d] by blast
next
  assume "\<not> startsWith m ''http://'' \<and> \<not> startsWith m ''https://''"
  then show "convertRemoteToLocalCache H m = Some (Inr m)"
    by (simp add: convertRemoteToLocalCache_local)
next
  assume d: "getDenoDir H = ''/home/u/.deno''"
  have r: "replace ''https://deno.land/x/std/log/mod'' ''://'' ''/'' =
      ''https/deno.land/x/std/log/mod''"
    by code_simp
  have n: "normalizeString ''/home/u/.deno/deps/https/deno.land/x/std/log/mod/'' False =
      ''home/u/.deno/deps/https/deno.land/x/std/log/mod''"
    by code_simp
  show c: "cache_path H ''https://deno.land/x/std/log/mod'' =
      ''/home/u/.deno/deps/https/deno.land/x/std/log/mod''"
    unfolding cache_path_def r d by (simp add: path_resolve_absolute n)
  assume "existsSync H ''/home/u/.deno/deps/https/deno.land/x/std/log/mod.ts'' \<or>
       \<not> existsSync H ''/home/u/.deno/deps/https/deno.land/x/std/log/mod.ts.headers.json''"
  then have "fallbackHeader H ''/home/u/.deno/deps/https/deno.land/x/std/log/mod'' =
      Some (Inr ''/home/u/.deno/deps/https/deno.land/x/std/log/mod'')"
    by (auto simp: fallbackHeader_unfold example_validPath)
  then show "convertRemoteToLocalCache H ''https://deno.land/x/std/log/mod'' =
      Some (Inr ''/home/u/.deno/deps/https/deno.land/x/std/log/mod'')"
    using c by (simp add: convertRemoteToLocalCache_unfold example_remote)
qed

lemma example_plain:
  "plain_path ''home/u/.deno''"
  "plain_path ''https/deno.land/x/std/log/mod''"
  by code_simp+

theorem convertRemoteToLocalCache_mapping_witness:
  "startsWith ''https://deno.land/x/std/log/mod'' ''https://'' \<and>
   getDenoDir example_host = ''/home/u/.deno'' \<and>
   plain_path ''home/u/.deno'' \<and>
   plain_path (replace ''https://deno.land/x/std/log/mod'' ''://'' ''/'') \<and>
   existsSync example_host ''/home/u/.deno/deps/https/deno.land/x/std/log/mod.ts'' \<and>
   cache_path example_host ''https://deno.land/x/std/log/mod'' =
     ''/home/u/.deno/deps/https/deno.land/x/std/log/mod'' \<and>
   convertRemoteToLocalCache example_host ''https://deno.land/x/std/log/mod'' =
     Some (Inr ''/home/u/.deno/deps/https/deno.land/x/std/log/mod'') \<and>
   replace ''https://deno.land/x/std/log/mod'' ''://'' ''/'' = ''https/deno.land/x/std/log/mod'' \<and>
   \<not> startsWith ''./util/mod'' ''http://'' \<and> \<not> startsWith ''./util/mod'' ''https://'' \<and>
   convertRemoteToLocalCache example_host ''./util/mod'' = Some (Inr ''./util/mod'') \<and>
   startsWith ''http://localhost/mod'' ''http://'' \<and>
   replace ''http://localhost/mod'' ''://'' ''/'' = ''http/localhost/mod''"
  using convertRemoteToLocalCache_mapping[of "''https://deno.land/x/std/log/mod''" example_host
      "''home/u/.deno''"]
    convertRemoteToLocalCache_mapping[of "''./util/mod''" example_host]
    convertRemoteToLocalCache_mapping[of "''http://localhost/mod''" example_host]
    example_plain
  by (simp add: example_denoDir example_exists example_files_def startsWith_def)

subsection \<open>Facts about objects and their keys\<close>

lemma put_property_map:
  "put_property k (f v) (map (\<lambda>(k, v). (k, f v)) ps) =
   map (\<lambda>(k, v). (k, f v)) (put_property k v ps)"
  by (induction ps) auto

lemma foldl_put_map:
  "foldl (\<lambda>ps (k, v). put_property k v ps) (map (\<lambda>(k, v). (k, f v)) acc)
     (map (\<lambda>(k, v). (k, f v)) es) =
   map (\<lambda>(k, v). (k, f v)) (foldl (\<lambda>ps (k, v). put_property k v ps) acc es)"
  by (induction es arbitrary: acc) (auto simp: put_property_map)

lemma own_properties_map:
  "own_properties (map (\<lambda>(k, v). (k, f v)) es) = map (\<lambda>(k, v). (k, f v)) (own_properties es)"
  using foldl_put_map[of f "[]" es] by (simp add: own_properties_def)

lemma map_fst_insort:
  "map fst (insort_key (\<lambda>p. f (fst p)) x xs) = insort_key f (fst x) (map fst xs)"
  by (induction xs) auto

lemma map_fst_sort:
  "map fst (sort_key (\<lambda>p. f (fst p)) xs) = sort_key f (map fst xs)"
  by (induction xs) (auto simp: map_fst_insort)

lemma own_keys_enumerate: "own_keys ps = map fst (enumerate_properties ps)"
  by (simp add: own_keys_def enumerate_properties_def map_fst_sort filter_map comp_def)

lemma set_enumerate: "set (enumerate_properties ps) = set ps"
  by (auto simp: enumerate_properties_def)

lemma put_property_keys:
  "set (map fst (put_property k v ps)) = insert k (set (map fst ps))"
proof (induction ps)
  case Nil
  show ?case by simp
next
  case (Cons a ps)
  obtain k' v' where a: "a = (k', v')" by (cases a)
  show ?case
  proof (cases "k' = k")
    case True
    then show ?thesis by (simp add: a insert_absorb)
  next
    case False
    then show ?thesis using Cons by (simp add: a insert_commute)
  qed
qed

lemma foldl_put_keys:
  "set (map fst (foldl (\<lambda>ps (k, v). put_property k v ps) acc es)) =
   set (map fst acc) \<union> set (map fst es)"
proof (induction es arbitrary: acc)
  case Nil
  show ?case by simp
next
  case (Cons e es)
  obtain k v where e: "e = (k, v)" by (cases e)
  show ?case using Cons[of "put_property k v acc"] put_property_keys[of k v acc]
    by (simp add: e)
qed

lemma own_properties_keys: "set (map fst (own_properties es)) = set (map fst es)"
  using foldl_put_keys[of "[]" es] by (simp add: own_properties_def)

lemma put_property_distinct:
  "distinct (map fst ps) \<Longrightarrow> distinct (map fst (put_property k v ps))"
proof (induction ps)
  case Nil
  show ?case by simp
next
  case (Cons a ps)
  then show ?case using put_property_keys[of k v ps] by (cases a) auto
qed

lemma foldl_put_distinct:
  "distinct (map fst acc) \<Longrightarrow>
   distinct (map fst (foldl (\<lambda>ps (k, v). put_property k v ps) acc es))"
  by (induction es arbitrary: acc) (auto simp: put_property_distinct)

lemma own_properties_distinct: "distinct (map fst (own_properties es))"
  using foldl_put_distinct[of "[]" es] by (simp add: own_properties_def)

lemma put_property_new: "k \<notin> set (map fst ps) \<Longrightarrow> put_property k v ps = ps @ [(k, v)]"
  by (induction ps) auto

lemma foldl_put_fresh:
  "distinct (map fst (acc @ es)) \<Longrightarrow>
   foldl (\<lambda>ps (k, v). put_property k v ps) acc es = acc @ es"
proof (induction es arbitrary: acc)
  case Nil
  show ?case by simp
next
  case (Cons e es)
  obtain k v where e: "e = (k, v)" by (cases e)
  have "put_property k v acc = acc @ [(k, v)]"
    using Cons.prems e by (intro put_property_new) auto
  then show ?case using Cons.IH[of "acc @ [e]"] Cons.prems e by simp
qed

text \<open>
  A document whose names are all different gives an object with the members as its
  properties, and without an array index among the names the keys are listed in the
  order of the document.
\<close>

lemma own_properties_id: "distinct (map fst es) \<Longrightarrow> own_properties es = es"
  using foldl_put_fresh[of "[]" es] by (simp add: own_properties_def)

lemma enumerate_id:
  "\<not> list_ex is_array_index (map fst ps) \<Longrightarrow> enumerate_properties ps = ps"
proof -
  assume "\<not> list_ex is_array_index (map fst ps)"
  then have a: "\<forall>x\<in>set ps. \<not> is_array_index (fst x)" by (auto simp: list_ex_iff)
  then have "filter (\<lambda>p. is_array_index (fst p)) ps = []"
    by (auto simp: filter_empty_conv)
  moreover have "filter (\<lambda>p. \<not> is_array_index (fst p)) ps = ps"
    using a by (auto simp: filter_id_conv)
  ultimately show ?thesis by (simp add: enumerate_properties_def)
qed

subsection \<open>The substitution function\<close>

lemma import_scan_spec:
  assumes "\<And>k v. (k, v) \<in> set qs \<Longrightarrow> get_element imports k = Some (JStr v)"
  shows "import_scan imports (map fst qs) m = Inr (spec_substitution qs m)"
  using assms
proof (induction qs)
  case Nil
  show ?case by simp
next
  case (Cons q qs)
  obtain k v where q: "q = (k, v)" by (cases q)
  have ge: "get_element imports k = Some (JStr v)" using Cons.prems q by simp
  have ih: "import_scan imports (map fst qs) m = Inr (spec_substitution qs m)"
    using Cons by simp
  show ?case
    by (simp add: q ge ih plus_string_def substring_from_drop)
qed

lemma transform_document:
  "transformFromImportMap (import_map_document entries) m =
   Inr (spec_substitution (enumerate_properties (own_properties entries)) m)"
proof -
  let ?g = "\<lambda>(k, v). (k, JStr v)"
  let ?members = "map ?g entries"
  let ?ps = "own_properties entries"
  have gp: "get_property (import_map_document entries) ''imports'' =
      Inr (Some (JObj ?members))"
    by (simp add: import_map_document_def own_properties_def)
  have keys: "own_keys (own_properties ?members) = map fst (enumerate_properties ?ps)"
    by (simp add: own_properties_map own_keys_enumerate[symmetric] own_keys_def comp_def
        case_prod_beta)
  have el: "get_element (Some (JObj ?members)) k = Some (JStr v)"
    if "(k, v) \<in> set (enumerate_properties ?ps)" for k v
  proof -
    have "(k, v) \<in> set ?ps" using that by (simp add: set_enumerate)
    then have "map_of ?ps k = Some v" using own_properties_distinct[of entries] by simp
    then show ?thesis by (simp add: own_properties_map map_of_map case_prod_beta comp_def)
  qed
  show ?thesis
    unfolding transformFromImportMap_def gp
    by (simp add: keys import_scan_spec[OF el])
qed

lemma transform_distinct:
  assumes "distinct (map fst entries)" and "\<not> list_ex is_array_index (map fst entries)"
  shows "transformFromImportMap (import_map_document entries) m =
         Inr (spec_substitution entries m)"
  using assms by (simp add: transform_document own_properties_id enumerate_id)

lemma spec_substitution_no_match:
  "\<not> list_ex (startsWith m) (map fst qs) \<Longrightarrow> spec_substitution qs m = m"
  by (induction qs) auto

lemma transform_no_match:
  assumes "\<not> list_ex (startsWith m) (map fst entries)"
  shows "transformFromImportMap (import_map_document entries) m = Inr m"
proof -
  have "set (map fst (enumerate_properties (own_properties entries))) = set (map fst entries)"
    using own_properties_keys[of entries] by (simp add: set_enumerate)
  then have "\<not> list_ex (startsWith m) (map fst (enumerate_properties (own_properties entries)))"
    using assms unfolding list_ex_iff by blast
  then show ?thesis by (simp add: transform_document spec_substitution_no_match)
qed

lemma makeTransform_import_map:
  assumes "resolveSync H dir = Inr (Some tp)"
    and "tsconfig_readFileSync H tp = Inr tsconfig"
    and "get_property tsconfig ''denoOptions'' = Inr (Some d)"
    and "truthy (Some d)"
    and "get_property d ''importMap'' = Inr (Some (JStr rel))"
    and "rel \<noteq> []"
    and "getImportMap H st (path_resolve (cwd H) [path_dirname tp, rel]) = (Inr v, st')"
  shows "makeTransformFromImportMap H st dir =
         (Inr (transformFromImportMap (deref (heap st') v)), st')"
  using assms by (simp add: makeTransformFromImportMap_def Let_def)

subsection \<open>Facts about the import map store\<close>

lemma getImportMap_stat_fails:
  "statSync_mtimeMs H p = Inl e \<Longrightarrow> getImportMap H st p = (Inl e, st)"
  by (simp add: getImportMap_def)

lemma getImportMap_read_fails:
  "statSync_mtimeMs H p = Inr mt \<Longrightarrow> importMapCache st (cacheKey_of p mt) = None \<Longrightarrow>
   readFileSync H p = Inl e \<Longrightarrow> getImportMap H st p = (Inl e, st)"
  by (simp add: getImportMap_def)

lemma getImportMap_parse_fails:
  "statSync_mtimeMs H p = Inr mt \<Longrightarrow> importMapCache st (cacheKey_of p mt) = None \<Longrightarrow>
   readFileSync H p = Inr doc \<Longrightarrow> JSON_parse H doc = None \<Longrightarrow>
   getImportMap H st p = (Inl SyntaxError, st)"
  by (simp add: getImportMap_def)

lemma getImportMap_miss:
  "statSync_mtimeMs H p = Inr mt \<Longrightarrow> importMapCache st (cacheKey_of p mt) = None \<Longrightarrow>
   readFileSync H p = Inr doc \<Longrightarrow> JSON_parse H doc = Some j \<Longrightarrow>
   getImportMap H st p =
     (Inr (fst (allocate j (heap st))),
      st\<lparr>heap := snd (allocate j (heap st)),
         importMapCache :=
           (importMapCache st)(cacheKey_of p mt \<mapsto> fst (allocate j (heap st)))\<rparr>)"
  by (simp add: getImportMap_def split: prod.splits)

lemma getImportMap_hit:
  "statSync_mtimeMs H p = Inr mt \<Longrightarrow> importMapCache st (cacheKey_of p mt) = Some w \<Longrightarrow>
   getImportMap H st p = (Inr w, st)"
  by (simp add: getImportMap_def)

lemma deref_allocate: "deref (snd (allocate j h)) (fst (allocate j h)) = j"
  by (simp add: allocate_def deref_def)

lemma allocate_object: "is_object j \<Longrightarrow> allocate j h = (Ref (length h), h @ [j])"
  by (simp add: allocate_def)

text \<open>A load only adds to the cache and to the store, and keeps the references sound.\<close>

lemma getImportMap_grows:
  assumes "getImportMap H st p = (r, st')"
  shows "(\<forall>k w. importMapCache st k = Some w \<longrightarrow> importMapCache st' k = Some w) \<and>
         take (length (heap st)) (heap st') = heap st"
  using assms
  by (auto simp: getImportMap_def allocate_def Let_def
      split: sum.splits option.splits if_splits)

lemma getImportMap_ok:
  assumes "getImportMap H st p = (r, st')" and "state_ok st"
  shows "state_ok st' \<and> (\<forall>a. r = Inr (Ref a) \<longrightarrow> a < length (heap st'))"
  using assms
  by (auto simp: getImportMap_def allocate_def Let_def state_ok_def less_Suc_eq
      split: sum.splits option.splits if_splits)

lemma getImportMap_cached_after:
  assumes "getImportMap H st p = (Inr v, st')" and "statSync_mtimeMs H p = Inr mt"
  shows "importMapCache st' (cacheKey_of p mt) = Some v"
  using assms
  by (auto simp: getImportMap_def allocate_def Let_def
      split: sum.splits option.splits if_splits)

lemma getImportMap_other_keys:
  assumes "getImportMap H st p = (r, st')" and "statSync_mtimeMs H p = Inr mt"
    and "k \<noteq> cacheKey_of p mt"
  shows "importMapCache st' k = importMapCache st k"
  using assms
  by (auto simp: getImportMap_def allocate_def Let_def
      split: sum.splits option.splits if_splits)

lemma cacheKey_inj: "cacheKey_of p m1 = cacheKey_of p m2 \<longleftrightarrow> m1 = m2"
  by (simp add: cacheKey_of_def)

subsection \<open>The import map store and resolver: claims\<close>

lemma example_stat:
  "statSync_mtimeMs example_host p =
     (case map_of example_files p of None \<Rightarrow> Inl ENOENT | Some c \<Rightarrow> Inr ''1571000000000'')"
  by (simp add: example_host_def)

lemma touched_stat:
  "statSync_mtimeMs touched_host p =
     (case map_of example_files p of None \<Rightarrow> Inl ENOENT | Some c \<Rightarrow> Inr ''1571000060000'')"
  by (simp add: touched_host_def)

lemma touched_read: "readFileSync touched_host = readFileSync example_host"
  by (simp add: touched_host_def)

lemma touched_parse: "JSON_parse touched_host = JSON_parse example_host"
  by (simp add: touched_host_def)

lemma state0_sel: "heap state0 = []" "importMapCache state0 k = None"
  by (simp_all add: state0_def)

lemma example_first_load:
  "getImportMap example_host state0 ''/proj/import_map.json'' = (Inr (Ref 0), loaded_state)"
  by (simp add: getImportMap_def example_stat example_read example_parse state0_def
      example_files_def example_documents_def cacheKey_of_def allocate_def is_object_def
      loaded_state_def import_map_document_def fun_eq_iff)

lemma example_import_map_path:
  "path_resolve (cwd example_host) [path_dirname ''/proj/tsconfig.json'', ''./import_map.json''] =
   ''/proj/import_map.json''"
  by code_simp

lemma example_not_index:
  "\<not> list_ex is_array_index (map fst [(''std/'', ''A/''), (''std/http/'', ''B/'')])"
  by code_simp

lemma example_no_match:
  "\<not> list_ex (startsWith ''./util/mod.ts'') (map fst [(''std/'', ''A/''), (''std/http/'', ''B/'')])"
  by code_simp

lemma example_first_wins:
  "spec_substitution [(''std/'', ''A/''), (''std/http/'', ''B/'')] ''std/http/mod.ts'' =
   ''A/http/mod.ts''"
  by code_simp

lemma example_tsconfig:
  "resolveSync example_host dir = Inr (Some ''/proj/tsconfig.json'')"
  "tsconfig_readFileSync example_host tp =
     Inr (JObj [(''denoOptions'', JObj [(''importMap'', JStr ''./import_map.json'')])])"
  by (simp_all add: example_host_def)

lemma transform_without_imports:
  "get_property j ''imports'' = Inr None \<Longrightarrow> transformFromImportMap j m = Inl TypeError"
  by (simp add: transformFromImportMap_def)

lemma transform_null: "transformFromImportMap JNull m = Inl TypeError"
  by (simp add: transformFromImportMap_def)

text \<open>
  C6 (as the code has it). The load fails with the error of \<open>statSync\<close> when the
  file cannot be found (\<open>ENOENT\<close> for a missing file). When the file's key is not in
  the cache, the load fails with the error of \<open>readFileSync\<close>, or with a
  \<open>SyntaxError\<close> when the content is not valid JSON; any valid JSON value is returned
  as it is, with or without an \<open>imports\<close> member, and is stored in the cache under
  the file's key (and nothing else changes in the cache), so that a further load at the
  same modification time returns it again without reading the file. When the key is in
  the cache the cached value is returned and the state stays as it is. A map that is
  \<open>null\<close> or has no \<open>imports\<close> member fails later: the substitution function
  throws a \<open>TypeError\<close> on every specifier.
\<close>

theorem getImportMap_outcomes:
  "(statSync_mtimeMs H p = Inl e \<longrightarrow> getImportMap H st p = (Inl e, st)) \<and>
   (statSync_mtimeMs H p = Inr mt \<and> importMapCache st (cacheKey_of p mt) = None \<and>
    readFileSync H p = Inl e \<longrightarrow> getImportMap H st p = (Inl e, st)) \<and>
   (statSync_mtimeMs H p = Inr mt \<and> importMapCache st (cacheKey_of p mt) = None \<and>
    readFileSync H p = Inr doc \<and> JSON_parse H doc = None \<longrightarrow>
      getImportMap H st p = (Inl SyntaxError, st)) \<and>
   (statSync_mtimeMs H p = Inr mt \<and> importMapCache st (cacheKey_of p mt) = None \<and>
    readFileSync H p = Inr doc \<and> JSON_parse H doc = Some j \<longrightarrow>
      getImportMap H st p =
        (Inr (fst (allocate j (heap st))),
         st\<lparr>heap := snd (allocate j (heap st)),
            importMapCache :=
              (importMapCache st)(cacheKey_of p mt \<mapsto> fst (allocate j (heap st)))\<rparr>) \<and>
      deref (snd (allocate j (heap st))) (fst (allocate j (heap st))) = j \<and>
      importMapCache (snd (getImportMap H st p)) (cacheKey_of p mt) =
        Some (fst (allocate j (heap st))) \<and>
      (statSync_mtimeMs H' p = Inr mt \<longrightarrow>
         getImportMap H' (snd (getImportMap H st p)) p =
           (Inr (fst (allocate j (heap st))), snd (getImportMap H st p)))) \<and>
   (statSync_mtimeMs H p = Inr mt \<and> importMapCache st (cacheKey_of p mt) = Some w \<longrightarrow>
      getImportMap H st p = (Inr w, st)) \<and>
   (get_property j ''imports'' = Inr None \<or> j = JNull \<longrightarrow>
      transformFromImportMap j m = Inl TypeError)"
proof (intro conjI impI)
  assume "statSync_mtimeMs H p = Inl e"
  then show "getImportMap H st p = (Inl e, st)" by (rule getImportMap_stat_fails)
next
  assume "statSync_mtimeMs H p = Inr mt \<and> importMapCache st (cacheKey_of p mt) = None \<and>
    readFileSync H p = Inl e"
  then show "getImportMap H st p = (Inl e, st)" by (simp add: getImportMap_read_fails)
next
  assume "statSync_mtimeMs H p = Inr mt \<and> importMapCache st (cacheKey_of p mt) = None \<and>
    readFileSync H p = Inr doc \<and> JSON_parse H doc = None"
  then show "getImportMap H st p = (Inl SyntaxError, st)"
    by (simp add: getImportMap_parse_fails)
next
  assume a: "statSync_mtimeMs H p = Inr mt \<and> importMapCache st (cacheKey_of p mt) = None \<and>
    readFileSync H p = Inr doc \<and> JSON_parse H doc = Some j"
  then show r: "getImportMap H st p =
     (Inr (fst (allocate j (heap st))),
      st\<lparr>heap := snd (allocate j (heap st)),
         importMapCache :=
           (importMapCache st)(cacheKey_of p mt \<mapsto> fst (allocate j (heap st)))\<rparr>)"
    by (simp add: getImportMap_miss)
  show "deref (snd (allocate j (heap st))) (fst (allocate j (heap st))) = j"
    by (rule deref_allocate)
  show c: "importMapCache (snd (getImportMap H st p)) (cacheKey_of p mt) =
      Some (fst (allocate j (heap st)))"
    unfolding r by simp
  assume "statSync_mtimeMs H' p = Inr mt"
  then show "getImportMap H' (snd (getImportMap H st p)) p =
      (Inr (fst (allocate j (heap st))), snd (getImportMap H st p))"
    using c by (rule getImportMap_hit)
next
  assume "statSync_mtimeMs H p = Inr mt \<and> importMapCache st (cacheKey_of p mt) = Some w"
  then show "getImportMap H st p = (Inr w, st)" by (simp add: getImportMap_hit)
next
  assume "get_property j ''imports'' = Inr None \<or> j = JNull"
  then show "transformFromImportMap j m = Inl TypeError"
    using transform_without_imports transform_null by blast
qed

theorem getImportMap_outcomes_witness:
  "statSync_mtimeMs example_host ''/proj/missing.json'' = Inl ENOENT \<and>
   getImportMap example_host state0 ''/proj/missing.json'' = (Inl ENOENT, state0) \<and>
   readFileSync example_host ''/home/u/.deno/deps/https/deno.land/x/std/log/mod.ts'' =
     Inr ''export {};'' \<and>
   JSON_parse example_host ''export {};'' = None \<and>
   getImportMap example_host state0 ''/home/u/.deno/deps/https/deno.land/x/std/log/mod.ts'' =
     (Inl SyntaxError, state0) \<and>
   JSON_parse example_host ''{}'' = Some (JObj []) \<and>
   getImportMap example_host state0 ''/proj/bare.json'' =
     (Inr (Ref 0),
      \<lparr>heap = [JObj []],
        importMapCache = (\<lambda>k. None)(''/proj/bare.json-1571000000000'' \<mapsto> Ref 0)\<rparr>) \<and>
   getImportMap example_host
     \<lparr>heap = [JObj []],
       importMapCache = (\<lambda>k. None)(''/proj/bare.json-1571000000000'' \<mapsto> Ref 0)\<rparr>
     ''/proj/bare.json'' =
     (Inr (Ref 0),
      \<lparr>heap = [JObj []],
        importMapCache = (\<lambda>k. None)(''/proj/bare.json-1571000000000'' \<mapsto> Ref 0)\<rparr>) \<and>
   get_property (JObj []) ''imports'' = Inr None \<and>
   transformFromImportMap (JObj []) ''std/http/mod.ts'' = Inl TypeError"
proof -
  have a: "getImportMap example_host state0 ''/proj/missing.json'' = (Inl ENOENT, state0)"
    using getImportMap_outcomes[of example_host "''/proj/missing.json''" ENOENT state0]
    by (simp add: example_stat example_files_def)
  have b: "getImportMap example_host state0
      ''/home/u/.deno/deps/https/deno.land/x/std/log/mod.ts'' = (Inl SyntaxError, state0)"
    using getImportMap_outcomes[of example_host
      "''/home/u/.deno/deps/https/deno.land/x/std/log/mod.ts''" _ state0
      "''1571000000000''" "''export {};''"]
    by (simp add: example_stat example_read example_parse state0_sel
      example_files_def example_documents_def)
  have al: "allocate (JObj []) (heap state0) = (Ref 0, [JObj []])"
    by (simp add: allocate_def is_object_def state0_def)
  have pre: "statSync_mtimeMs example_host ''/proj/bare.json'' = Inr ''1571000000000'' \<and>
      importMapCache state0 (cacheKey_of ''/proj/bare.json'' ''1571000000000'') = None \<and>
      readFileSync example_host ''/proj/bare.json'' = Inr ''{}'' \<and>
      JSON_parse example_host ''{}'' = Some (JObj [])"
    by (simp add: example_stat example_read example_parse state0_sel
      example_files_def example_documents_def)
  note T = getImportMap_outcomes[of example_host "''/proj/bare.json''" _ state0
      "''1571000000000''" "''{}''" "JObj []" example_host]
  have c: "getImportMap example_host state0 ''/proj/bare.json'' =
     (Inr (Ref 0),
      \<lparr>heap = [JObj []],
        importMapCache = (\<lambda>k. None)(''/proj/bare.json-1571000000000'' \<mapsto> Ref 0)\<rparr>)"
  proof -
    have "getImportMap example_host state0 ''/proj/bare.json'' =
        (Inr (fst (allocate (JObj []) (heap state0))),
         state0\<lparr>heap := snd (allocate (JObj []) (heap state0)),
            importMapCache :=
              (importMapCache state0)(cacheKey_of ''/proj/bare.json'' ''1571000000000'' \<mapsto>
                fst (allocate (JObj []) (heap state0)))\<rparr>)"
      using T pre by blast
    then show ?thesis unfolding al by (simp add: state0_def cacheKey_of_def)
  qed
  have "getImportMap example_host (snd (getImportMap example_host state0 ''/proj/bare.json''))
      ''/proj/bare.json'' =
      (Inr (fst (allocate (JObj []) (heap state0))),
       snd (getImportMap example_host state0 ''/proj/bare.json''))"
    using T pre by blast
  then have d: "getImportMap example_host
     \<lparr>heap = [JObj []],
       importMapCache = (\<lambda>k. None)(''/proj/bare.json-1571000000000'' \<mapsto> Ref 0)\<rparr>
     ''/proj/bare.json'' =
     (Inr (Ref 0),
      \<lparr>heap = [JObj []],
        importMapCache = (\<lambda>k. None)(''/proj/bare.json-1571000000000'' \<mapsto> Ref 0)\<rparr>)"
    unfolding c al by simp
  have g: "get_property (JObj []) ''imports'' = Inr None"
    by (simp add: own_properties_def)
  have e: "transformFromImportMap (JObj []) ''std/http/mod.ts'' = Inl TypeError"
    using getImportMap_outcomes[where j = "JObj []" and m = "''std/http/mod.ts''"] g by blast
  show ?thesis
    using a b c d e g pre
    by (simp add: example_stat example_read example_parse example_files_def
        example_documents_def)
qed

text \<open>
  C6 as the specification states it fails: the file \<open>/proj/bare.json\<close> holds the valid
  JSON document \<open>{}\<close>, which has no \<open>imports\<close> member, and the load returns the
  parsed object without an error. The \<open>TypeError\<close> only comes when the substitution
  function built on that object is called.
\<close>

theorem getImportMap_no_imports_counterexample:
  "readFileSync example_host ''/proj/bare.json'' = Inr ''{}'' \<and>
   JSON_parse example_host ''{}'' = Some (JObj []) \<and>
   get_property (JObj []) ''imports'' = Inr None \<and>
   fst (getImportMap example_host state0 ''/proj/bare.json'') = Inr (Ref 0) \<and>
   transformFromImportMap (JObj []) ''std/http/mod.ts'' = Inl TypeError"
  by (simp add: getImportMap_def example_stat example_read example_parse state0_sel
      example_files_def example_documents_def cacheKey_of_def allocate_def is_object_def
      own_properties_def transformFromImportMap_def)

text \<open>
  C9. A load never removes an entry of the cache nor an object of the store. After a
  successful load of a file at modification time \<open>m1\<close>, every further load of the file
  at that modification time returns the same value (for an object: the same reference)
  and leaves the state as it is, whatever the file then contains: nothing is read or
  parsed. A load at another modification time \<open>m2\<close>, not seen before for this file,
  parses the content again, stores the result at a new address, different from every
  reference handed out before, and caches it under its own key; the entry of \<open>m1\<close>
  stays, also when the content is the same.
\<close>

theorem importMapCache_lifecycle:
  "(getImportMap H st p = (r, st') \<longrightarrow>
      (\<forall>k w. importMapCache st k = Some w \<longrightarrow> importMapCache st' k = Some w) \<and>
      take (length (heap st)) (heap st') = heap st) \<and>
   (state_ok st \<and> statSync_mtimeMs H p = Inr m1 \<and> getImportMap H st p = (Inr v1, st1) \<longrightarrow>
      (statSync_mtimeMs H2 p = Inr m1 \<longrightarrow> getImportMap H2 st1 p = (Inr v1, st1)) \<and>
      (statSync_mtimeMs H3 p = Inr m2 \<and> m2 \<noteq> m1 \<and>
       importMapCache st (cacheKey_of p m2) = None \<and>
       readFileSync H3 p = Inr doc \<and> JSON_parse H3 doc = Some j \<and> is_object j \<longrightarrow>
         getImportMap H3 st1 p =
           (Inr (Ref (length (heap st1))),
            st1\<lparr>heap := heap st1 @ [j],
                importMapCache :=
                  (importMapCache st1)(cacheKey_of p m2 \<mapsto> Ref (length (heap st1)))\<rparr>) \<and>
         Ref (length (heap st1)) \<noteq> v1 \<and>
         ((importMapCache st1)(cacheKey_of p m2 \<mapsto> Ref (length (heap st1))))
           (cacheKey_of p m1) = Some v1))"
proof (intro conjI impI)
  assume "getImportMap H st p = (r, st')"
  then show "\<forall>k w. importMapCache st k = Some w \<longrightarrow> importMapCache st' k = Some w"
    and "take (length (heap st)) (heap st') = heap st"
    using getImportMap_grows by blast+
next
  assume a: "state_ok st \<and> statSync_mtimeMs H p = Inr m1 \<and> getImportMap H st p = (Inr v1, st1)"
  then have c1: "importMapCache st1 (cacheKey_of p m1) = Some v1"
    using getImportMap_cached_after by blast
  {
    assume "statSync_mtimeMs H2 p = Inr m1"
    then show "getImportMap H2 st1 p = (Inr v1, st1)"
      using c1 by (rule getImportMap_hit)
  }
  assume b: "statSync_mtimeMs H3 p = Inr m2 \<and> m2 \<noteq> m1 \<and>
       importMapCache st (cacheKey_of p m2) = None \<and>
       readFileSync H3 p = Inr doc \<and> JSON_parse H3 doc = Some j \<and> is_object j"
  have ne: "cacheKey_of p m2 \<noteq> cacheKey_of p m1" using b by (simp add: cacheKey_inj)
  have "importMapCache st1 (cacheKey_of p m2) = importMapCache st (cacheKey_of p m2)"
    using getImportMap_other_keys[of H st p "Inr v1" st1 m1] a ne by simp
  then have c2: "importMapCache st1 (cacheKey_of p m2) = None" using b by simp
  show "getImportMap H3 st1 p =
           (Inr (Ref (length (heap st1))),
            st1\<lparr>heap := heap st1 @ [j],
                importMapCache :=
                  (importMapCache st1)(cacheKey_of p m2 \<mapsto> Ref (length (heap st1)))\<rparr>)"
    using getImportMap_miss[of H3 p m2 st1 doc j] b c2 by (simp add: allocate_object)
  show "Ref (length (heap st1)) \<noteq> v1"
    using getImportMap_ok[of H st p "Inr v1" st1] a by auto
  show "((importMapCache st1)(cacheKey_of p m2 \<mapsto> Ref (length (heap st1))))
           (cacheKey_of p m1) = Some v1"
    using c1 ne by simp
qed

theorem importMapCache_lifecycle_witness:
  "state_ok state0 \<and>
   statSync_mtimeMs example_host ''/proj/import_map.json'' = Inr ''1571000000000'' \<and>
   getImportMap example_host state0 ''/proj/import_map.json'' = (Inr (Ref 0), loaded_state) \<and>
   getImportMap example_host loaded_state ''/proj/import_map.json'' = (Inr (Ref 0), loaded_state) \<and>
   statSync_mtimeMs touched_host ''/proj/import_map.json'' = Inr ''1571000060000'' \<and>
   readFileSync touched_host ''/proj/import_map.json'' =
     readFileSync example_host ''/proj/import_map.json'' \<and>
   fst (getImportMap touched_host loaded_state ''/proj/import_map.json'') = Inr (Ref 1) \<and>
   heap (snd (getImportMap touched_host loaded_state ''/proj/import_map.json'')) =
     [import_map_document [(''std/'', ''https://deno.land/std/'')],
      import_map_document [(''std/'', ''https://deno.land/std/'')]] \<and>
   importMapCache (snd (getImportMap touched_host loaded_state ''/proj/import_map.json''))
     ''/proj/import_map.json-1571000000000'' = Some (Ref 0) \<and>
   importMapCache (snd (getImportMap touched_host loaded_state ''/proj/import_map.json''))
     ''/proj/import_map.json-1571000060000'' = Some (Ref 1)"
  using importMapCache_lifecycle[where H = example_host and st = state0
      and p = "''/proj/import_map.json''" and r = "Inr (Ref 0)" and st' = loaded_state
      and ?m1.0 = "''1571000000000''" and ?v1.0 = "Ref 0" and ?st1.0 = loaded_state
      and ?H2.0 = example_host and ?H3.0 = touched_host and ?m2.0 = "''1571000060000''"
      and doc = "''{\"imports\":{\"std/\":\"https://deno.land/std/\"}}''"
      and j = "import_map_document [(''std/'', ''https://deno.land/std/'')]"]
    example_first_load
  by (simp add: state_ok_def state0_sel example_stat touched_stat touched_read touched_parse
      example_read example_parse example_files_def example_documents_def
      import_map_document_def is_object_def cacheKey_of_def loaded_state_def)

text \<open>
  C5 (as the code has it). When the project configuration names an import map, the
  function that \<open>makeTransformFromImportMap\<close> returns is \<open>transformFromImportMap\<close> of
  the loaded map. For an import map whose values are strings it scans the keys in the
  order of \<open>Object.keys\<close>: array indices first, by ascending value, then the other keys
  in the order of their first occurrence in the document, each key with the value of its
  last occurrence. The first key that is a prefix of the specifier wins, longer matching
  keys further on are not preferred; the prefix is replaced by the key's value and the
  rest of the specifier is kept. For a document whose keys are all different and none an
  array index this is the order of the document. A specifier that no key is a prefix of
  is returned unchanged. The example of the specification holds.
\<close>

theorem import_map_substitution:
  "(resolveSync H dir = Inr (Some tp) \<and> tsconfig_readFileSync H tp = Inr tsconfig \<and>
    get_property tsconfig ''denoOptions'' = Inr (Some d) \<and> truthy (Some d) \<and>
    get_property d ''importMap'' = Inr (Some (JStr rel)) \<and> rel \<noteq> [] \<and>
    getImportMap H st (path_resolve (cwd H) [path_dirname tp, rel]) = (Inr v, st') \<longrightarrow>
      makeTransformFromImportMap H st dir =
        (Inr (transformFromImportMap (deref (heap st') v)), st')) \<and>
   transformFromImportMap (import_map_document entries) m =
     Inr (spec_substitution (enumerate_properties (own_properties entries)) m) \<and>
   (distinct (map fst entries) \<and> \<not> list_ex is_array_index (map fst entries) \<longrightarrow>
      transformFromImportMap (import_map_document entries) m =
        Inr (spec_substitution entries m)) \<and>
   (\<not> list_ex (startsWith m) (map fst entries) \<longrightarrow>
      transformFromImportMap (import_map_document entries) m = Inr m) \<and>
   transformFromImportMap (import_map_document [(''std/'', ''https://deno.land/std/'')])
     ''std/http/mod.ts'' = Inr ''https://deno.land/std/http/mod.ts''"
proof (intro conjI impI)
  assume "resolveSync H dir = Inr (Some tp) \<and> tsconfig_readFileSync H tp = Inr tsconfig \<and>
    get_property tsconfig ''denoOptions'' = Inr (Some d) \<and> truthy (Some d) \<and>
    get_property d ''importMap'' = Inr (Some (JStr rel)) \<and> rel \<noteq> [] \<and>
    getImportMap H st (path_resolve (cwd H) [path_dirname tp, rel]) = (Inr v, st')"
  then show "makeTransformFromImportMap H st dir =
        (Inr (transformFromImportMap (deref (heap st') v)), st')"
    using makeTransform_import_map[of H dir tp tsconfig d rel st v st'] by blast
next
  show "transformFromImportMap (import_map_document entries) m =
     Inr (spec_substitution (enumerate_properties (own_properties entries)) m)"
    by (rule transform_document)
next
  assume "distinct (map fst entries) \<and> \<not> list_ex is_array_index (map fst entries)"
  then show "transformFromImportMap (import_map_document entries) m =
        Inr (spec_substitution entries m)"
    by (simp add: transform_distinct)
next
  assume "\<not> list_ex (startsWith m) (map fst entries)"
  then show "transformFromImportMap (import_map_document entries) m = Inr m"
    by (rule transform_no_match)
next
  have "spec_substitution [(''std/'', ''https://deno.land/std/'')] ''std/http/mod.ts'' =
      ''https://deno.land/std/http/mod.ts''"
    by code_simp
  moreover have "distinct (map fst [(''std/'', ''https://deno.land/std/'')])" by simp
  moreover have "\<not> list_ex is_array_index (map fst [(''std/'', ''https://deno.land/std/'')])"
    by code_simp
  ultimately show "transformFromImportMap
      (import_map_document [(''std/'', ''https://deno.land/std/'')])
      ''std/http/mod.ts'' = Inr ''https://deno.land/std/http/mod.ts''"
    using transform_distinct[of "[(''std/'', ''https://deno.land/std/'')]" "''std/http/mod.ts''"]
    by simp
qed

theorem import_map_substitution_witness:
  "makeTransformFromImportMap example_host state0 ''/proj'' =
     (Inr (transformFromImportMap (import_map_document [(''std/'', ''https://deno.land/std/'')])),
      loaded_state) \<and>
   distinct (map fst [(''std/'', ''A/''), (''std/http/'', ''B/'')]) \<and>
   \<not> list_ex is_array_index (map fst [(''std/'', ''A/''), (''std/http/'', ''B/'')]) \<and>
   transformFromImportMap (import_map_document [(''std/'', ''A/''), (''std/http/'', ''B/'')])
     ''std/http/mod.ts'' = Inr ''A/http/mod.ts'' \<and>
   \<not> list_ex (startsWith ''./util/mod.ts'') (map fst [(''std/'', ''A/''), (''std/http/'', ''B/'')]) \<and>
   transformFromImportMap (import_map_document [(''std/'', ''A/''), (''std/http/'', ''B/'')])
     ''./util/mod.ts'' = Inr ''./util/mod.ts''"
proof -
  have load: "getImportMap example_host state0
      (path_resolve (cwd example_host) [path_dirname ''/proj/tsconfig.json'', ''./import_map.json'']) =
      (Inr (Ref 0), loaded_state)"
    unfolding example_import_map_path by (rule example_first_load)
  have made: "makeTransformFromImportMap example_host state0 ''/proj'' =
      (Inr (transformFromImportMap (deref (heap loaded_state) (Ref 0))), loaded_state)"
    using import_map_substitution[where H = example_host and dir = "''/proj''"
      and tp = "''/proj/tsconfig.json''"
      and tsconfig = "JObj [(''denoOptions'', JObj [(''importMap'', JStr ''./import_map.json'')])]"
      and d = "JObj [(''importMap'', JStr ''./import_map.json'')]"
      and rel = "''./import_map.json''" and st = state0 and v = "Ref 0" and st' = loaded_state]
      load
    by (simp add: example_tsconfig own_properties_def)
  have d: "distinct (map fst [(''std/'', ''A/''), (''std/http/'', ''B/'')])" by simp
  have first: "transformFromImportMap
      (import_map_document [(''std/'', ''A/''), (''std/http/'', ''B/'')]) ''std/http/mod.ts'' =
      Inr ''A/http/mod.ts''"
  proof -
    have "distinct (map fst [(''std/'', ''A/''), (''std/http/'', ''B/'')]) \<and>
        \<not> list_ex is_array_index (map fst [(''std/'', ''A/''), (''std/http/'', ''B/'')]) \<longrightarrow>
        transformFromImportMap
          (import_map_document [(''std/'', ''A/''), (''std/http/'', ''B/'')]) ''std/http/mod.ts'' =
        Inr (spec_substitution [(''std/'', ''A/''), (''std/http/'', ''B/'')] ''std/http/mod.ts'')"
      using import_map_substitution[where entries = "[(''std/'', ''A/''), (''std/http/'', ''B/'')]"
          and m = "''std/http/mod.ts''"]
      by blast
    then show ?thesis using d example_not_index by (simp only: example_first_wins simp_thms)
  qed
  have none: "transformFromImportMap
      (import_map_document [(''std/'', ''A/''), (''std/http/'', ''B/'')]) ''./util/mod.ts'' =
      Inr ''./util/mod.ts''"
    using import_map_substitution[where entries = "[(''std/'', ''A/''), (''std/http/'', ''B/'')]"
        and m = "''./util/mod.ts''"] example_no_match
    by blast
  show ?thesis
    using made d example_not_index first example_no_match none
    by (simp add: deref_def loaded_state_def)
qed

text \<open>
  C5 as the specification states it fails: in the import map
  \<open>{"imports": {"10": "A", "1": "B"}}\<close> the first key of the document that is a
  prefix of \<open>10/x\<close> is \<open>10\<close>, which would give \<open>A/x\<close>; \<open>Object.keys\<close> lists the key
  \<open>1\<close> first, and the function returns \<open>B0/x\<close>.
\<close>

theorem import_map_document_order_counterexample:
  "spec_substitution [(''10'', ''A''), (''1'', ''B'')] ''10/x'' = ''A/x'' \<and>
   transformFromImportMap (import_map_document [(''10'', ''A''), (''1'', ''B'')]) ''10/x'' =
     Inr ''B0/x''"
proof -
  have "enumerate_properties (own_properties [(''10'', ''A''), (''1'', ''B'')]) =
      [(''1'', ''B''), (''10'', ''A'')]"
    by code_simp
  moreover have "spec_substitution [(''1'', ''B''), (''10'', ''A'')] ''10/x'' = ''B0/x''"
    by code_simp
  moreover have "spec_substitution [(''10'', ''A''), (''1'', ''B'')] ''10/x'' = ''A/x''"
    by code_simp
  ultimately show ?thesis by (simp add: transform_document)
qed

end
